theory Spec2Isabelle
  imports Main "HOL-Library.Word"
begin

section \<open>The light sensor of the micro:bit runtime\<close>

text \<open>
  This theory embeds \<^verbatim>\<open>source/drivers/MicroBitLightSensor.cpp\<close>: the constructor, the
  destructor, \<^verbatim>\<open>startSensing\<close>, \<^verbatim>\<open>analogReady\<close>, \<^verbatim>\<open>analogDisable\<close>,
  \<^verbatim>\<open>update_averages\<close> and \<^verbatim>\<open>read\<close>. Every member function becomes a function on an
  explicit state, which holds the fields of the object together with the part of the
  world the functions act on: the default event bus, the events raised and the
  operations issued to the pins, the ADC and the timeout.
\<close>

subsection \<open>Configuration constants\<close>

text \<open>
  The header that defines the \<^verbatim>\<open>MICROBIT_LIGHT_SENSOR_*\<close> macros is not among the
  sources, so the four constants the driver uses are parameters of the model. The
  literal 450 of \<^verbatim>\<open>update_averages\<close> is in the source and stays a literal.
\<close>

record config =
  MICROBIT_LIGHT_SENSOR_CHAN_NUM :: nat
  MICROBIT_LIGHT_SENSOR_AN_SET_TIME :: nat
  MICROBIT_LIGHT_SENSOR_MAX_VALUE :: int
  MICROBIT_LIGHT_SENSOR_MIN_VALUE :: int

subsection \<open>Machine arithmetic\<close>

text \<open>
  The fields and locals of the driver are C++ \<^verbatim>\<open>int\<close>s, 32 bits wide on the target.
  They are modelled as HOL integers; every addition, subtraction and multiplication
  is followed by \<open>int32\<close>, the two's complement wrap-around, and \<^verbatim>\<open>/\<close> is \<open>c_div\<close>,
  which truncates towards zero.
\<close>

definition int32 :: "int \<Rightarrow> int" where
  "int32 x = (x + 2 ^ 31) mod 2 ^ 32 - 2 ^ 31"

definition c_div :: "int \<Rightarrow> int \<Rightarrow> int" where
  "c_div a b = sgn a * sgn b * (\<bar>a\<bar> div \<bar>b\<bar>)"

subsection \<open>The world outside the object\<close>

type_synonym PinName = nat

record MatrixMap =
  rows :: nat
  columns :: nat
  rowStart :: nat
  columnStart :: nat

datatype event_source = MICROBIT_ID_DISPLAY | MICROBIT_ID_LIGHT_SENSOR

datatype event_value = MICROBIT_DISPLAY_EVT_LIGHT_SENSE | MICROBIT_DISPLAY_EVT_LIGHT_SENSE_READY

datatype event_handler = MicroBitLightSensor_startSensing

datatype listener_flags = MESSAGE_BUS_LISTENER_IMMEDIATE

type_synonym listener = "event_source \<times> event_value \<times> event_handler \<times> listener_flags"

text \<open>The operations the driver issues, in the order it issues them.\<close>

datatype hw_op =
    DigitalOut_write PinName int
  | DigitalIn_destroy PinName
  | AnalogIn_new PinName
  | AnalogIn_delete PinName
  | AnalogIn_read_u16 PinName
  | NRF_ADC_ENABLE_Disabled
  | NRF_ADC_CONFIG_reset
  | Timeout_attach_us nat

subsection \<open>The state\<close>

text \<open>
  \<open>results\<close>, \<open>chan\<close>, \<open>average\<close>, \<open>valid_average\<close>, \<open>sensePin\<close>, \<open>analogTrigger\<close> and
  \<open>matrixMap\<close> are the fields of the object. The class declaration is not among the
  sources; the fields are those the member functions use. \<open>results\<close> is the array of
  \<open>CHAN_NUM\<close> integers, \<open>sensePin\<close> is \<open>None\<close> for the null pointer and \<open>Some p\<close> for an
  \<^verbatim>\<open>AnalogIn\<close> allocated on pin \<open>p\<close>.

  Modelled from the spec: the \<^verbatim>\<open>Timeout\<close> class of \<open>analogTrigger\<close> is not among the
  sources. It schedules a one-shot deferred call, and only one may be outstanding per
  sensor: \<open>analogTrigger\<close> is \<open>True\<close> from \<^verbatim>\<open>attach_us\<close> until the call of
  \<^verbatim>\<open>analogReady\<close> it schedules, and arming an armed timeout replaces the pending call.

  \<open>defaultEventBus\<close> is \<^verbatim>\<open>EventModel::defaultEventBus\<close>: \<open>None\<close> for the null pointer,
  otherwise the listeners registered on the bus. \<open>raised\<close> lists the events created
  with \<^verbatim>\<open>MicroBitEvent(source, value)\<close> and \<open>hw\<close> the hardware operations issued.
\<close>

record state =
  results :: "int list"
  chan :: nat
  average :: int
  valid_average :: int
  sensePin :: "PinName option"
  analogTrigger :: bool
  matrixMap :: MatrixMap
  defaultEventBus :: "listener list option"
  raised :: "(event_source \<times> event_value) list"
  hw :: "hw_op list"

datatype error = NullPointer | OutOfBounds

definition issue :: "hw_op list \<Rightarrow> state \<Rightarrow> state" where
  "issue ops s = s\<lparr>hw := hw s @ ops\<rparr>"

text \<open>
  Modelled from the spec: the constructor of \<^verbatim>\<open>MicroBitEvent\<close> is not among the sources.
  Creating an event with the default launch mode publishes it; the model records the
  pair of source and value.
\<close>

definition MicroBitEvent :: "event_source \<Rightarrow> event_value \<Rightarrow> state \<Rightarrow> state" where
  "MicroBitEvent src v s = s\<lparr>raised := raised s @ [(src, v)]\<rparr>"

text \<open>
  Modelled from the spec: \<^verbatim>\<open>listen\<close> and \<^verbatim>\<open>ignore\<close> of the message bus are not among the
  sources. \<open>listen\<close> subscribes a handler to a pair of source and value, \<open>ignore\<close>
  removes that subscription.
\<close>

definition listen :: "listener \<Rightarrow> listener list \<Rightarrow> listener list" where
  "listen l ls = ls @ [l]"

definition ignore :: "event_source \<Rightarrow> event_value \<Rightarrow> event_handler \<Rightarrow> listener list \<Rightarrow> listener list" where
  "ignore src v h ls = filter (\<lambda>(src', v', h', _). \<not> (src' = src \<and> v' = v \<and> h' = h)) ls"

subsection \<open>update_averages\<close>

text \<open>
  The body of the \<^verbatim>\<open>for\<close> loop, on the pair of the locals \<^verbatim>\<open>valid\<close> and \<^verbatim>\<open>sum\<close>, and
  the function. The loop runs \<^verbatim>\<open>i\<close> over \<open>0, ..., CHAN_NUM - 1\<close>.
\<close>

definition update_averages_body :: "int list \<Rightarrow> nat \<Rightarrow> bool \<times> int \<Rightarrow> bool \<times> int" where
  "update_averages_body rs i = (\<lambda>(valid, sum).
     ((if rs ! i < 0 \<or> rs ! i > 450 then False else valid),
      int32 (sum + max (rs ! i) 0)))"

definition update_averages :: "config \<Rightarrow> state \<Rightarrow> bool \<times> state" where
  "update_averages cfg s =
     (let (valid, sum) =
            fold (update_averages_body (results s))
              [0 ..< MICROBIT_LIGHT_SENSOR_CHAN_NUM cfg] (True, 0);
          s1 = s\<lparr>average := c_div sum (int (MICROBIT_LIGHT_SENSOR_CHAN_NUM cfg))\<rparr>
      in if valid
         then (valid,
               MicroBitEvent MICROBIT_ID_LIGHT_SENSOR MICROBIT_DISPLAY_EVT_LIGHT_SENSE_READY
                 (s1\<lparr>valid_average := average s1\<rparr>))
         else (valid, s1))"

subsection \<open>analogDisable and analogReady\<close>

definition analogDisable :: "state \<Rightarrow> state" where
  "analogDisable s = issue [NRF_ADC_ENABLE_Disabled, NRF_ADC_CONFIG_reset] s"

text \<open>
  \<open>v\<close> is the value \<^verbatim>\<open>read_u16\<close> returns, an unsigned 16-bit number. Dereferencing a
  null \<^verbatim>\<open>sensePin\<close> and writing outside \<^verbatim>\<open>results\<close> are errors of the model.
\<close>

definition analogReady :: "config \<Rightarrow> 16 word \<Rightarrow> state \<Rightarrow> error + state" where
  "analogReady cfg v s =
     (case sensePin s of
        None \<Rightarrow> Inl NullPointer
      | Some p \<Rightarrow>
          if \<not> chan s < length (results s) then Inl OutOfBounds
          else
            let s1 = issue [AnalogIn_read_u16 p] s;
                s2 = s1\<lparr>results := (results s1)[chan s1 := uint v]\<rparr>;
                s3 = analogDisable s2;
                s4 = issue [DigitalOut_write (columnStart (matrixMap s3) + chan s3) 1] s3;
                s5 = s4\<lparr>chan := chan s4 + 1\<rparr>;
                s6 = s5\<lparr>chan := chan s5 mod MICROBIT_LIGHT_SENSOR_CHAN_NUM cfg\<rparr>
            in Inr (snd (update_averages cfg s6)))"

subsection \<open>Constructor and destructor\<close>

text \<open>
  The constructor runs on the storage of the new object and on the world as it is:
  \<open>raw\<close> holds both. The constructor assigns \<open>chan\<close>, \<open>valid_average\<close>, every slot of
  \<open>results\<close> and \<open>sensePin\<close>, and initialises \<open>analogTrigger\<close> and \<open>matrixMap\<close>; it does
  not assign \<open>average\<close>, which keeps what the storage held.
\<close>

definition MicroBitLightSensor :: "config \<Rightarrow> MatrixMap \<Rightarrow> state \<Rightarrow> state" where
  "MicroBitLightSensor cfg mp raw =
     (let s0 = raw\<lparr>analogTrigger := False, matrixMap := mp\<rparr>;
          s1 = s0\<lparr>chan := 0\<rparr>;
          s2 = s1\<lparr>valid_average := - 1\<rparr>;
          s3 = s2\<lparr>results := fold (\<lambda>i rs. rs[i := - 1])
                  [0 ..< MICROBIT_LIGHT_SENSOR_CHAN_NUM cfg] (results s2)\<rparr>;
          s4 = (case defaultEventBus s3 of
                  None \<Rightarrow> s3
                | Some ls \<Rightarrow>
                    s3\<lparr>defaultEventBus := Some (listen
                      (MICROBIT_ID_DISPLAY, MICROBIT_DISPLAY_EVT_LIGHT_SENSE,
                       MicroBitLightSensor_startSensing, MESSAGE_BUS_LISTENER_IMMEDIATE) ls)\<rparr>)
      in s4\<lparr>sensePin := None\<rparr>)"

text \<open>
  The body of the destructor. The members are destroyed after the body has run, by
  their own destructors; that of \<open>analogTrigger\<close> belongs to the timer library and is not
  modelled.
\<close>

definition destroy_MicroBitLightSensor :: "state \<Rightarrow> state" where
  "destroy_MicroBitLightSensor s =
     (case defaultEventBus s of
        None \<Rightarrow> s
      | Some ls \<Rightarrow>
          s\<lparr>defaultEventBus := Some (ignore MICROBIT_ID_DISPLAY MICROBIT_DISPLAY_EVT_LIGHT_SENSE
            MicroBitLightSensor_startSensing ls)\<rparr>)"

subsection \<open>read\<close>

definition read :: "config \<Rightarrow> state \<Rightarrow> bool \<Rightarrow> int" where
  "read cfg s valid_only =
     (let average0 = (if valid_only then valid_average s else average s)
      in if valid_only \<and> average0 < 0 then - 1
         else
           let average1 = min average0 (MICROBIT_LIGHT_SENSOR_MAX_VALUE cfg);
               average2 = max average1 (MICROBIT_LIGHT_SENSOR_MIN_VALUE cfg);
               inverted = int32 (int32 (MICROBIT_LIGHT_SENSOR_MAX_VALUE cfg - average2)
                                 + MICROBIT_LIGHT_SENSOR_MIN_VALUE cfg);
               a = 0;
               b = 255;
               normalised =
                 int32 (a + c_div
                   (int32 (int32 (inverted - MICROBIT_LIGHT_SENSOR_MIN_VALUE cfg) * int32 (b - a)))
                   (int32 (MICROBIT_LIGHT_SENSOR_MAX_VALUE cfg - MICROBIT_LIGHT_SENSOR_MIN_VALUE cfg)))
           in normalised)"

subsection \<open>startSensing\<close>

definition startSensing :: "config \<Rightarrow> state \<Rightarrow> state" where
  "startSensing cfg s =
     (let s1 = issue (map (\<lambda>rowCount. DigitalOut_write (rowStart (matrixMap s) + rowCount) 0)
                        [0 ..< rows (matrixMap s)]) s;
          currentPin = columnStart (matrixMap s1) + chan s1;
          s2 = issue [DigitalOut_write currentPin 1] s1;
          s3 = issue [DigitalIn_destroy currentPin] s2;
          s4 = (case sensePin s3 of
                  None \<Rightarrow> s3
                | Some p \<Rightarrow> issue [AnalogIn_delete p] s3);
          s5 = issue [AnalogIn_new currentPin] (s4\<lparr>sensePin := Some currentPin\<rparr>)
      in issue [Timeout_attach_us (MICROBIT_LIGHT_SENSOR_AN_SET_TIME cfg)]
           (s5\<lparr>analogTrigger := True\<rparr>))"

subsection \<open>Runs of the driver\<close>

text \<open>
  What happens to a sensor after its construction: \<open>Start\<close> is a call of
  \<^verbatim>\<open>startSensing\<close>, by the bus or by hand; \<open>Expire v\<close> is the end of the settle time,
  when the timeout, if it is armed, calls \<^verbatim>\<open>analogReady\<close> once and the ADC returns \<open>v\<close>.
  A timeout that is not armed calls nothing.
\<close>

datatype event = Start | Expire "16 word"

fun step :: "config \<Rightarrow> state \<Rightarrow> event \<Rightarrow> error + state" where
  "step cfg s Start = Inr (startSensing cfg s)"
| "step cfg s (Expire v) =
     (if analogTrigger s then analogReady cfg v (s\<lparr>analogTrigger := False\<rparr>) else Inr s)"

fun run :: "config \<Rightarrow> state \<Rightarrow> event list \<Rightarrow> error + state" where
  "run cfg s [] = Inr s"
| "run cfg s (e # es) =
     (case step cfg s e of Inl err \<Rightarrow> Inl err | Inr s' \<Rightarrow> run cfg s' es)"

text \<open>
  The completed conversions of a run, each as the pair of the state in which the
  timeout expired and the state \<^verbatim>\<open>analogReady\<close> left.
\<close>

fun conversions :: "config \<Rightarrow> state \<Rightarrow> event list \<Rightarrow> (state \<times> state) list" where
  "conversions cfg s [] = []"
| "conversions cfg s (e # es) =
     (case step cfg s e of
        Inl err \<Rightarrow> []
      | Inr s' \<Rightarrow>
          (case e of
             Expire v \<Rightarrow> (if analogTrigger s then [(s, s')] else [])
           | Start \<Rightarrow> []) @ conversions cfg s' es)"

subsection \<open>Notions used in the statements\<close>

text \<open>The value of the local \<^verbatim>\<open>sum\<close> when the loop of \<^verbatim>\<open>update_averages\<close> ends.\<close>

definition loop_sum :: "config \<Rightarrow> state \<Rightarrow> int" where
  "loop_sum cfg s =
     snd (fold (update_averages_body (results s))
            [0 ..< MICROBIT_LIGHT_SENSOR_CHAN_NUM cfg] (True, 0))"

text \<open>Every channel value lies in the validity window \<open>[0, 450]\<close>.\<close>

definition valid_results :: "config \<Rightarrow> state \<Rightarrow> bool" where
  "valid_results cfg s \<longleftrightarrow>
     (\<forall>i < MICROBIT_LIGHT_SENSOR_CHAN_NUM cfg. 0 \<le> results s ! i \<and> results s ! i \<le> 450)"

text \<open>
  The conditions on the constants under which the model is the program. The array
  \<^verbatim>\<open>results\<close> has at least one slot, so that \<^verbatim>\<open>update_averages\<close> does not divide by
  zero, and \<^verbatim>\<open>chan++\<close> cannot overflow whatever integer type the header declares
  \<^verbatim>\<open>chan\<close> with (\<open>chan_num_ok\<close>). The sensing range is not empty, so that \<^verbatim>\<open>read\<close>
  does not divide by zero, and it is narrow enough for the arithmetic of \<^verbatim>\<open>read\<close> to
  stay within 32 bits (\<open>range_ok\<close>).
\<close>

definition chan_num_ok :: "config \<Rightarrow> bool" where
  "chan_num_ok cfg \<longleftrightarrow>
     0 < MICROBIT_LIGHT_SENSOR_CHAN_NUM cfg \<and> MICROBIT_LIGHT_SENSOR_CHAN_NUM cfg \<le> 127"

definition range_ok :: "config \<Rightarrow> bool" where
  "range_ok cfg \<longleftrightarrow>
     MICROBIT_LIGHT_SENSOR_MIN_VALUE cfg < MICROBIT_LIGHT_SENSOR_MAX_VALUE cfg
     \<and> - (2 ^ 31) \<le> MICROBIT_LIGHT_SENSOR_MIN_VALUE cfg
     \<and> MICROBIT_LIGHT_SENSOR_MAX_VALUE cfg < 2 ^ 31
     \<and> (MICROBIT_LIGHT_SENSOR_MAX_VALUE cfg - MICROBIT_LIGHT_SENSOR_MIN_VALUE cfg) * 255 < 2 ^ 31"

text \<open>
  A slot of \<^verbatim>\<open>results\<close> holds the sentinel or a converted value, and the invariant of
  the sensor: \<^verbatim>\<open>results\<close> has its \<open>CHAN_NUM\<close> slots, each a sentinel or a converted value,
  \<^verbatim>\<open>chan\<close> is an index of the array, and an armed timeout has an \<^verbatim>\<open>AnalogIn\<close> to read.
\<close>

definition slot_ok :: "int \<Rightarrow> bool" where
  "slot_ok r \<longleftrightarrow> r = - 1 \<or> (0 \<le> r \<and> r \<le> 65535)"

definition sensor_inv :: "config \<Rightarrow> state \<Rightarrow> bool" where
  "sensor_inv cfg s \<longleftrightarrow>
     length (results s) = MICROBIT_LIGHT_SENSOR_CHAN_NUM cfg
     \<and> chan s < MICROBIT_LIGHT_SENSOR_CHAN_NUM cfg
     \<and> (analogTrigger s \<longrightarrow> sensePin s \<noteq> None)
     \<and> (\<forall>r \<in> set (results s). slot_ok r)"

text \<open>
  What \<^verbatim>\<open>analogReady\<close> has done to the state when it calls \<^verbatim>\<open>update_averages\<close>, given
  that \<^verbatim>\<open>sensePin\<close> is an \<^verbatim>\<open>AnalogIn\<close> on pin \<open>p\<close>.
\<close>

definition sample :: "config \<Rightarrow> 16 word \<Rightarrow> PinName \<Rightarrow> state \<Rightarrow> state" where
  "sample cfg v p s =
     s\<lparr>results := (results s)[chan s := uint v],
       chan := (chan s + 1) mod MICROBIT_LIGHT_SENSOR_CHAN_NUM cfg,
       hw := hw s @ [AnalogIn_read_u16 p, NRF_ADC_ENABLE_Disabled, NRF_ADC_CONFIG_reset,
                     DigitalOut_write (columnStart (matrixMap s) + chan s) 1]\<rparr>"

text \<open>
  The channels sampled by the completed conversions of a run, in order, and whether one
  of these conversions left every channel value inside the validity window.
\<close>

definition sampled_channels :: "config \<Rightarrow> state \<Rightarrow> event list \<Rightarrow> nat list" where
  "sampled_channels cfg s es = map (\<lambda>c. chan (fst c)) (conversions cfg s es)"

definition valid_cycle_completed :: "config \<Rightarrow> state \<Rightarrow> event list \<Rightarrow> bool" where
  "valid_cycle_completed cfg s es \<longleftrightarrow>
     list_ex (\<lambda>c. valid_results cfg (snd c)) (conversions cfg s es)"

text \<open>
  The state after one undisturbed cycle from \<open>s\<close>: a call of \<^verbatim>\<open>startSensing\<close>, then the
  timeout expiring with the conversion value \<open>v\<close>.
\<close>

definition cycle :: "config \<Rightarrow> 16 word \<Rightarrow> state \<Rightarrow> state" where
  "cycle cfg v s =
     snd (update_averages cfg
       (sample cfg v (columnStart (matrixMap s) + chan s)
          ((startSensing cfg s)\<lparr>analogTrigger := False\<rparr>)))"

text \<open>The subscription the constructor makes, and whether the bus holds it.\<close>

definition startSensing_listener :: listener where
  "startSensing_listener =
     (MICROBIT_ID_DISPLAY, MICROBIT_DISPLAY_EVT_LIGHT_SENSE,
      MicroBitLightSensor_startSensing, MESSAGE_BUS_LISTENER_IMMEDIATE)"

definition listening :: "state \<Rightarrow> bool" where
  "listening s = (case defaultEventBus s of None \<Rightarrow> False | Some ls \<Rightarrow> startSensing_listener \<in> set ls)"

text \<open>
  A concrete configuration (three channels, sensing range 0 to 450), a matrix map and
  two storages to construct a sensor in, one with a default event bus and one without.
\<close>

definition cfg0 :: config where
  "cfg0 = \<lparr>MICROBIT_LIGHT_SENSOR_CHAN_NUM = 3, MICROBIT_LIGHT_SENSOR_AN_SET_TIME = 4000,
           MICROBIT_LIGHT_SENSOR_MAX_VALUE = 450, MICROBIT_LIGHT_SENSOR_MIN_VALUE = 0\<rparr>"

definition mp0 :: MatrixMap where
  "mp0 = \<lparr>rows = 3, columns = 9, rowStart = 13, columnStart = 4\<rparr>"

definition raw0 :: state where
  "raw0 = \<lparr>results = [0, 0, 0], chan = 0, average = 0, valid_average = 0, sensePin = None,
            analogTrigger = False, matrixMap = mp0, defaultEventBus = Some [], raised = [], hw = []\<rparr>"

definition raw_nobus :: state where
  "raw_nobus = raw0\<lparr>defaultEventBus := None\<rparr>"

section \<open>Properties of the model\<close>

subsection \<open>Machine arithmetic\<close>

lemma int32_id: "- (2 ^ 31) \<le> x \<Longrightarrow> x < 2 ^ 31 \<Longrightarrow> int32 x = x"
  by (simp add: int32_def)

lemma c_div_nonneg: "0 \<le> a \<Longrightarrow> 0 < b \<Longrightarrow> c_div a b = a div b"
  by (cases "a = 0") (simp_all add: c_div_def)

lemma scaled_bounds:
  fixes d w :: int
  assumes "0 \<le> d" "d \<le> w" "0 < w"
  shows "0 \<le> d * 255 div w" "d * 255 div w \<le> 255"
proof -
  show "0 \<le> d * 255 div w" using assms by (simp add: pos_imp_zdiv_nonneg_iff)
  have "d * 255 \<le> 255 * w" using assms by simp
  then have "d * 255 div w \<le> 255 * w div w" by (rule zdiv_mono1) (use assms in simp)
  then show "d * 255 div w \<le> 255" using assms by simp
qed

subsection \<open>The loop and the result of update_averages\<close>

lemma fold_body_valid:
  "fst (fold (update_averages_body rs) [0 ..< n] (b, a)) \<longleftrightarrow>
     b \<and> (\<forall>i < n. 0 \<le> rs ! i \<and> rs ! i \<le> 450)"
proof (induction n)
  case 0
  show ?case by simp
next
  case (Suc n)
  show ?case
    using Suc.IH
    by (auto simp: update_averages_body_def split_beta less_Suc_eq)
qed

lemma fold_body_sum:
  assumes "\<forall>i < n. rs ! i \<le> 65535" and "n \<le> 32767"
  shows "snd (fold (update_averages_body rs) [0 ..< n] (b, 0)) = (\<Sum>i < n. max (rs ! i) 0)
         \<and> (\<Sum>i < n. max (rs ! i) 0) \<le> 65535 * int n \<and> 0 \<le> (\<Sum>i < n. max (rs ! i) 0)"
  using assms
proof (induction n)
  case 0
  show ?case by simp
next
  case (Suc n)
  then have IH: "snd (fold (update_averages_body rs) [0 ..< n] (b, 0)) = (\<Sum>i < n. max (rs ! i) 0)"
    and ub: "(\<Sum>i < n. max (rs ! i) 0) \<le> 65535 * int n" and lb: "0 \<le> (\<Sum>i < n. max (rs ! i) 0)"
    by simp_all
  from Suc.prems have rn: "rs ! n \<le> 65535" and n: "n < 32767" by simp_all
  let ?S = "(\<Sum>i < n. max (rs ! i) 0)"
  have m: "0 \<le> max (rs ! n) 0" "max (rs ! n) 0 \<le> 65535" using rn by simp_all
  have "?S + max (rs ! n) 0 \<le> 65535 * int (Suc n)" using ub m by simp
  moreover have "65535 * int (Suc n) < 2 ^ 31" using n by simp
  ultimately have w: "int32 (?S + max (rs ! n) 0) = ?S + max (rs ! n) 0"
    using lb m by (intro int32_id) linarith+
  have "snd (fold (update_averages_body rs) [0 ..< Suc n] (b, 0)) = int32 (?S + max (rs ! n) 0)"
    using IH by (simp add: update_averages_body_def split_beta)
  then show ?case using w ub lb m by simp
qed

lemma update_averages_eq:
  "update_averages cfg s =
     (if valid_results cfg s
      then (True, s\<lparr>average := c_div (loop_sum cfg s) (int (MICROBIT_LIGHT_SENSOR_CHAN_NUM cfg)),
                      valid_average := c_div (loop_sum cfg s) (int (MICROBIT_LIGHT_SENSOR_CHAN_NUM cfg)),
                      raised := raised s @
                        [(MICROBIT_ID_LIGHT_SENSOR, MICROBIT_DISPLAY_EVT_LIGHT_SENSE_READY)]\<rparr>)
      else (False, s\<lparr>average := c_div (loop_sum cfg s) (int (MICROBIT_LIGHT_SENSOR_CHAN_NUM cfg))\<rparr>))"
proof -
  have v: "fst (fold (update_averages_body (results s))
              [0 ..< MICROBIT_LIGHT_SENSOR_CHAN_NUM cfg] (True, 0)) = valid_results cfg s"
    by (simp add: fold_body_valid valid_results_def)
  show ?thesis
    unfolding update_averages_def Let_def split_beta v MicroBitEvent_def loop_sum_def
    by simp
qed

lemma update_averages_fst: "fst (update_averages cfg s) = valid_results cfg s"
  by (simp add: update_averages_eq)

lemma update_averages_frame:
  "results (snd (update_averages cfg s)) = results s"
  "chan (snd (update_averages cfg s)) = chan s"
  "sensePin (snd (update_averages cfg s)) = sensePin s"
  "analogTrigger (snd (update_averages cfg s)) = analogTrigger s"
  "matrixMap (snd (update_averages cfg s)) = matrixMap s"
  "defaultEventBus (snd (update_averages cfg s)) = defaultEventBus s"
  "hw (snd (update_averages cfg s)) = hw s"
  by (simp_all add: update_averages_eq)

lemma update_averages_average:
  "average (snd (update_averages cfg s)) =
     c_div (loop_sum cfg s) (int (MICROBIT_LIGHT_SENSOR_CHAN_NUM cfg))"
  by (simp add: update_averages_eq)

lemma update_averages_valid_average:
  "valid_average (snd (update_averages cfg s)) =
     (if valid_results cfg s then average (snd (update_averages cfg s)) else valid_average s)"
  by (simp add: update_averages_eq)

lemma update_averages_raised:
  "raised (snd (update_averages cfg s)) =
     (if valid_results cfg s
      then raised s @ [(MICROBIT_ID_LIGHT_SENSOR, MICROBIT_DISPLAY_EVT_LIGHT_SENSE_READY)]
      else raised s)"
  by (simp add: update_averages_eq)

lemma update_averages_average_eq:
  assumes "0 < MICROBIT_LIGHT_SENSOR_CHAN_NUM cfg" "MICROBIT_LIGHT_SENSOR_CHAN_NUM cfg \<le> 32767"
    and "\<forall>i < MICROBIT_LIGHT_SENSOR_CHAN_NUM cfg. results s ! i \<le> 65535"
  shows "average (snd (update_averages cfg s)) =
     (\<Sum>i < MICROBIT_LIGHT_SENSOR_CHAN_NUM cfg. max (results s ! i) 0)
       div int (MICROBIT_LIGHT_SENSOR_CHAN_NUM cfg)"
  using fold_body_sum [OF assms(3) assms(2), of True] assms(1)
  by (simp add: update_averages_average loop_sum_def c_div_nonneg)

lemma valid_results_set:
  "length (results s) = MICROBIT_LIGHT_SENSOR_CHAN_NUM cfg \<Longrightarrow>
   valid_results cfg s \<longleftrightarrow> (\<forall>r \<in> set (results s). 0 \<le> r \<and> r \<le> 450)"
  by (auto simp: valid_results_def all_set_conv_all_nth)

lemma update_averages_fst_set:
  "length (results s) = MICROBIT_LIGHT_SENSOR_CHAN_NUM cfg \<Longrightarrow>
   fst (update_averages cfg s) \<longleftrightarrow> (\<forall>r \<in> set (results s). 0 \<le> r \<and> r \<le> 450)"
  by (simp add: update_averages_fst valid_results_set)

lemma valid_results_cong: "results s = results t \<Longrightarrow> valid_results cfg s = valid_results cfg t"
  by (simp add: valid_results_def)

subsection \<open>read\<close>

lemma read_eq:
  assumes ok: "range_ok cfg"
    and sel: "\<not> (valid_only \<and> (if valid_only then valid_average s else average s) < 0)"
  shows "read cfg s valid_only =
     (MICROBIT_LIGHT_SENSOR_MAX_VALUE cfg
        - max (MICROBIT_LIGHT_SENSOR_MIN_VALUE cfg)
            (min (MICROBIT_LIGHT_SENSOR_MAX_VALUE cfg)
               (if valid_only then valid_average s else average s))) * 255
     div (MICROBIT_LIGHT_SENSOR_MAX_VALUE cfg - MICROBIT_LIGHT_SENSOR_MIN_VALUE cfg)"
proof -
  define hi where "hi = MICROBIT_LIGHT_SENSOR_MAX_VALUE cfg"
  define lo where "lo = MICROBIT_LIGHT_SENSOR_MIN_VALUE cfg"
  define avg where "avg = (if valid_only then valid_average s else average s)"
  define c where "c = max (min avg hi) lo"
  have r0: "lo < hi" "- 2147483648 \<le> lo" "hi < 2147483648" "(hi - lo) * 255 < 2147483648"
    using ok by (simp_all add: range_ok_def hi_def lo_def)
  have "hi - lo \<le> (hi - lo) * 255" using r0(1) by simp
  then have "hi - lo < 2147483648" using r0(4) by (rule le_less_trans)
  note r = r0 this
  have int32_id': "int32 x = x" if "- 2147483648 \<le> x" "x < 2147483648" for x
    using that by (simp add: int32_id)
  have c: "lo \<le> c" "c \<le> hi" using r(1) by (simp_all add: c_def)
  have w1: "int32 (hi - c) = hi - c" using c r by (intro int32_id') linarith+
  have w2: "int32 (hi - c + lo) = hi - c + lo" using c r by (intro int32_id') linarith+
  have w3: "int32 (hi - c + lo - lo) = hi - c" using w1 by simp
  have w4: "int32 (255 - 0) = 255" by (simp add: int32_id)
  have m: "0 \<le> (hi - c) * 255" "(hi - c) * 255 \<le> (hi - lo) * 255" using c by simp_all
  have w5: "int32 ((hi - c) * 255) = (hi - c) * 255" using m r by (intro int32_id') linarith+
  have w6: "int32 (hi - lo) = hi - lo" using r by (intro int32_id') linarith+
  have d: "c_div ((hi - c) * 255) (hi - lo) = (hi - c) * 255 div (hi - lo)"
    using m r by (simp add: c_div_nonneg)
  have b: "0 \<le> (hi - c) * 255 div (hi - lo)" "(hi - c) * 255 div (hi - lo) \<le> 255"
    using scaled_bounds [of "hi - c" "hi - lo"] c r by simp_all
  have w7: "int32 (0 + (hi - c) * 255 div (hi - lo)) = (hi - c) * 255 div (hi - lo)"
    using b by (simp add: int32_id')
  have "read cfg s valid_only =
      int32 (0 + c_div (int32 (int32 (int32 (int32 (hi - c) + lo) - lo) * int32 (255 - 0)))
                       (int32 (hi - lo)))"
    using sel unfolding read_def Let_def hi_def lo_def c_def avg_def by simp
  also have "\<dots> = (hi - c) * 255 div (hi - lo)"
    unfolding w1 w2 w3 w4 w5 w6 d w7 ..
  finally show ?thesis
    unfolding hi_def lo_def c_def avg_def by (simp add: max.commute min.commute)
qed

lemma read_range:
  assumes ok: "range_ok cfg"
    and sel: "\<not> (valid_only \<and> (if valid_only then valid_average s else average s) < 0)"
  shows "0 \<le> read cfg s valid_only \<and> read cfg s valid_only \<le> 255"
proof -
  define hi where "hi = MICROBIT_LIGHT_SENSOR_MAX_VALUE cfg"
  define lo where "lo = MICROBIT_LIGHT_SENSOR_MIN_VALUE cfg"
  define c where "c = max lo (min hi (if valid_only then valid_average s else average s))"
  have r: "lo < hi" using ok by (simp add: range_ok_def hi_def lo_def)
  have c: "lo \<le> c" "c \<le> hi" using r by (simp_all add: c_def)
  have "read cfg s valid_only = (hi - c) * 255 div (hi - lo)"
    using read_eq [OF ok sel] by (simp add: hi_def lo_def c_def)
  then show ?thesis using scaled_bounds [of "hi - c" "hi - lo"] c r by simp
qed

lemma read_sentinel:
  "valid_only \<and> (if valid_only then valid_average s else average s) < 0 \<Longrightarrow>
   read cfg s valid_only = - 1"
  by (auto simp: read_def Let_def)

subsection \<open>Constructor, startSensing and analogReady\<close>

lemma fold_clear:
  "n \<le> length xs \<Longrightarrow> fold (\<lambda>i rs. rs[i := v]) [0 ..< n] xs = replicate n v @ drop n xs"
proof (induction n)
  case 0
  show ?case by simp
next
  case (Suc n)
  then have "n < length xs" by simp
  then have "(replicate n v @ drop n xs)[n := v] = replicate (Suc n) v @ drop (Suc n) xs"
    by (simp add: list_update_append replicate_append_same upd_conv_take_nth_drop)
  then show ?case using Suc by simp
qed

lemma constructor_fields:
  assumes "length (results raw) = MICROBIT_LIGHT_SENSOR_CHAN_NUM cfg"
  shows "results (MicroBitLightSensor cfg mp raw) = replicate (MICROBIT_LIGHT_SENSOR_CHAN_NUM cfg) (- 1)"
    and "chan (MicroBitLightSensor cfg mp raw) = 0"
    and "valid_average (MicroBitLightSensor cfg mp raw) = - 1"
    and "average (MicroBitLightSensor cfg mp raw) = average raw"
    and "sensePin (MicroBitLightSensor cfg mp raw) = None"
    and "analogTrigger (MicroBitLightSensor cfg mp raw) = False"
    and "matrixMap (MicroBitLightSensor cfg mp raw) = mp"
    and "raised (MicroBitLightSensor cfg mp raw) = raised raw"
    and "hw (MicroBitLightSensor cfg mp raw) = hw raw"
  using assms by (simp_all add: MicroBitLightSensor_def Let_def fold_clear split: option.split)

lemma constructor_inv:
  assumes "chan_num_ok cfg" "length (results raw) = MICROBIT_LIGHT_SENSOR_CHAN_NUM cfg"
  shows "sensor_inv cfg (MicroBitLightSensor cfg mp raw)"
  using assms(1) by (simp add: sensor_inv_def constructor_fields [OF assms(2)] chan_num_ok_def slot_ok_def)

lemma startSensing_fields:
  "results (startSensing cfg s) = results s"
  "chan (startSensing cfg s) = chan s"
  "average (startSensing cfg s) = average s"
  "valid_average (startSensing cfg s) = valid_average s"
  "raised (startSensing cfg s) = raised s"
  "matrixMap (startSensing cfg s) = matrixMap s"
  "defaultEventBus (startSensing cfg s) = defaultEventBus s"
  "analogTrigger (startSensing cfg s) = True"
  "sensePin (startSensing cfg s) = Some (columnStart (matrixMap s) + chan s)"
  by (simp_all add: startSensing_def Let_def issue_def split: option.split)

lemma startSensing_inv: "sensor_inv cfg s \<Longrightarrow> sensor_inv cfg (startSensing cfg s)"
  by (simp add: sensor_inv_def startSensing_fields)

lemma analogReady_eq:
  assumes "sensePin s = Some p" "chan s < length (results s)"
  shows "analogReady cfg v s = Inr (snd (update_averages cfg (sample cfg v p s)))"
proof -
  have "issue [DigitalOut_write (columnStart (matrixMap s) + chan s) 1]
          (analogDisable ((issue [AnalogIn_read_u16 p] s)\<lparr>results := (results s)[chan s := uint v]\<rparr>))
          \<lparr>chan := (chan s + 1) mod MICROBIT_LIGHT_SENSOR_CHAN_NUM cfg\<rparr>
        = sample cfg v p s"
    by (simp add: issue_def analogDisable_def sample_def)
  then show ?thesis
    using assms by (simp add: analogReady_def Let_def issue_def analogDisable_def)
qed

lemma fire_fields:
  "results (snd (update_averages cfg (sample cfg v p (s\<lparr>analogTrigger := False\<rparr>)))) =
     (results s)[chan s := uint v]"
  "chan (snd (update_averages cfg (sample cfg v p (s\<lparr>analogTrigger := False\<rparr>)))) =
     (chan s + 1) mod MICROBIT_LIGHT_SENSOR_CHAN_NUM cfg"
  by (simp_all add: update_averages_frame sample_def)

lemma uint16_slot_ok: "slot_ok (uint (v :: 16 word))"
proof -
  have "uint v < 2 ^ 16" using uint_bounded [of v] by simp
  then show ?thesis by (simp add: slot_ok_def)
qed

lemma slot_ok_le: "slot_ok r \<Longrightarrow> r \<le> 65535"
  by (auto simp: slot_ok_def)

lemma sensor_inv_slot:
  assumes "sensor_inv cfg s" "i < MICROBIT_LIGHT_SENSOR_CHAN_NUM cfg"
  shows "slot_ok (results s ! i)"
proof -
  have "results s ! i \<in> set (results s)" using assms by (simp add: sensor_inv_def)
  then show ?thesis using assms(1) by (simp add: sensor_inv_def)
qed

lemma sample_inv:
  assumes "chan_num_ok cfg" "sensor_inv cfg s"
  shows "sensor_inv cfg (snd (update_averages cfg (sample cfg v p (s\<lparr>analogTrigger := False\<rparr>))))"
proof -
  have "\<forall>r \<in> set ((results s)[chan s := uint v]). slot_ok r"
    using assms(2) uint16_slot_ok [of v]
    by (auto simp: sensor_inv_def dest!: set_update_subset_insert [THEN subsetD])
  then show ?thesis
    using assms by (simp add: sensor_inv_def update_averages_frame sample_def chan_num_ok_def)
qed

lemma average_nonneg:
  assumes "chan_num_ok cfg" "sensor_inv cfg s"
  shows "0 \<le> average (snd (update_averages cfg s))"
proof -
  let ?C = "MICROBIT_LIGHT_SENSOR_CHAN_NUM cfg"
  have "\<forall>i < ?C. results s ! i \<le> 65535"
    using sensor_inv_slot [OF assms(2), THEN slot_ok_le] by simp
  then have "average (snd (update_averages cfg s)) = (\<Sum>i < ?C. max (results s ! i) 0) div int ?C"
    using assms(1) by (intro update_averages_average_eq) (simp_all add: chan_num_ok_def)
  moreover have "0 \<le> (\<Sum>i < ?C. max (results s ! i) 0)" by (rule sum_nonneg) simp
  moreover have "0 < int ?C" using assms(1) by (simp add: chan_num_ok_def)
  ultimately show ?thesis by (simp add: pos_imp_zdiv_nonneg_iff)
qed

lemma destroy_MicroBitLightSensor_fields:
  "\<not> listening (destroy_MicroBitLightSensor s)"
  "results (destroy_MicroBitLightSensor s) = results s"
  "chan (destroy_MicroBitLightSensor s) = chan s"
  "average (destroy_MicroBitLightSensor s) = average s"
  "valid_average (destroy_MicroBitLightSensor s) = valid_average s"
  "sensePin (destroy_MicroBitLightSensor s) = sensePin s"
  "hw (destroy_MicroBitLightSensor s) = hw s"
  by (auto simp: destroy_MicroBitLightSensor_def listening_def ignore_def startSensing_listener_def
      split: option.split)

subsection \<open>Steps and runs\<close>

lemma step_Expire:
  assumes "sensor_inv cfg s" "analogTrigger s"
  obtains p where "sensePin s = Some p"
    and "step cfg s (Expire v) = Inr (snd (update_averages cfg (sample cfg v p (s\<lparr>analogTrigger := False\<rparr>))))"
proof -
  from assms obtain p where p: "sensePin s = Some p" by (auto simp: sensor_inv_def)
  moreover have "step cfg s (Expire v) =
      Inr (snd (update_averages cfg (sample cfg v p (s\<lparr>analogTrigger := False\<rparr>))))"
    using assms p by (simp add: analogReady_eq [where p = p] sensor_inv_def)
  ultimately show ?thesis by (rule that)
qed

lemma step_inv:
  assumes "chan_num_ok cfg" "sensor_inv cfg s"
  shows "\<exists>s'. step cfg s e = Inr s' \<and> sensor_inv cfg s'"
proof (cases e)
  case Start
  then show ?thesis using assms(2) by (simp add: startSensing_inv)
next
  case (Expire v)
  show ?thesis
  proof (cases "analogTrigger s")
    case True
    from assms(2) True obtain p where
      "step cfg s (Expire v) = Inr (snd (update_averages cfg (sample cfg v p (s\<lparr>analogTrigger := False\<rparr>))))"
      by (rule step_Expire)
    then show ?thesis using Expire sample_inv [OF assms] by simp
  next
    case False
    then show ?thesis using Expire assms(2) by simp
  qed
qed

lemma step_cases:
  assumes "sensor_inv cfg s" "step cfg s e = Inr s'"
  obtains (start) "e = Start" "s' = startSensing cfg s"
    | (idle) v where "e = Expire v" "\<not> analogTrigger s" "s' = s"
    | (fire) v p where "e = Expire v" "analogTrigger s" "sensePin s = Some p"
        "s' = snd (update_averages cfg (sample cfg v p (s\<lparr>analogTrigger := False\<rparr>)))"
proof (cases e)
  case Start
  then show ?thesis using assms(2) start by simp
next
  case (Expire v)
  show ?thesis
  proof (cases "analogTrigger s")
    case True
    from assms(1) True obtain p where p: "sensePin s = Some p"
      and "step cfg s (Expire v) =
        Inr (snd (update_averages cfg (sample cfg v p (s\<lparr>analogTrigger := False\<rparr>))))"
      by (rule step_Expire)
    then have "s' = snd (update_averages cfg (sample cfg v p (s\<lparr>analogTrigger := False\<rparr>)))"
      using assms(2) Expire by simp
    then show ?thesis using Expire True p fire by blast
  next
    case False
    then have "s' = s" using assms(2) Expire by simp
    then show ?thesis using Expire False idle by blast
  qed
qed

lemma run_inv:
  assumes "chan_num_ok cfg"
  shows "sensor_inv cfg s \<Longrightarrow> \<exists>s'. run cfg s es = Inr s' \<and> sensor_inv cfg s'"
proof (induction es arbitrary: s)
  case Nil
  then show ?case by simp
next
  case (Cons e es)
  from step_inv [OF assms Cons.prems] obtain s1 where s1: "step cfg s e = Inr s1" "sensor_inv cfg s1"
    by blast
  from Cons.IH [OF s1(2)] show ?case using s1(1) by simp
qed

lemma run_snoc:
  "run cfg s (es @ [e]) = (case run cfg s es of Inl err \<Rightarrow> Inl err | Inr s' \<Rightarrow> step cfg s' e)"
  by (induction es arbitrary: s) (simp_all split: sum.split)

lemma run_append:
  "run cfg s (xs @ ys) = (case run cfg s xs of Inl err \<Rightarrow> Inl err | Inr s' \<Rightarrow> run cfg s' ys)"
  by (induction xs arbitrary: s) (simp_all split: sum.split)

lemma conversions_snoc:
  "run cfg s es = Inr s1 \<Longrightarrow> step cfg s1 e = Inr s2 \<Longrightarrow>
   conversions cfg s (es @ [e]) =
     conversions cfg s es @
       (case e of Expire v \<Rightarrow> (if analogTrigger s1 then [(s1, s2)] else []) | Start \<Rightarrow> [])"
  by (induction es arbitrary: s) (auto split: sum.splits)

lemma conversions_append:
  "run cfg s xs = Inr s1 \<Longrightarrow>
   conversions cfg s (xs @ ys) = conversions cfg s xs @ conversions cfg s1 ys"
  by (induction xs arbitrary: s) (auto split: sum.splits)

lemma sampled_channels_snoc:
  assumes "run cfg s es = Inr s1" "step cfg s1 e = Inr s2"
  shows "sampled_channels cfg s (es @ [e]) =
     sampled_channels cfg s es @
       (case e of Expire v \<Rightarrow> (if analogTrigger s1 then [chan s1] else []) | Start \<Rightarrow> [])"
  by (simp add: sampled_channels_def conversions_snoc [OF assms] split: event.split)

lemma round_robin:
  assumes "chan_num_ok cfg" "sensor_inv cfg s0" "chan s0 = 0"
  shows "\<exists>s. run cfg s0 es = Inr s \<and> sensor_inv cfg s
     \<and> sampled_channels cfg s0 es =
         map (\<lambda>k. k mod MICROBIT_LIGHT_SENSOR_CHAN_NUM cfg) [0 ..< length (conversions cfg s0 es)]
     \<and> chan s = length (conversions cfg s0 es) mod MICROBIT_LIGHT_SENSOR_CHAN_NUM cfg
     \<and> (\<forall>(p, q) \<in> set (conversions cfg s0 es).
           chan q = (chan p + 1) mod MICROBIT_LIGHT_SENSOR_CHAN_NUM cfg)"
proof (induction es rule: rev_induct)
  case Nil
  show ?case using assms by (simp add: chan_num_ok_def sampled_channels_def)
next
  case (snoc e es)
  let ?C = "MICROBIT_LIGHT_SENSOR_CHAN_NUM cfg"
  let ?cs = "conversions cfg s0 es"
  from snoc obtain s1 where s1: "run cfg s0 es = Inr s1" "sensor_inv cfg s1"
    and seq: "sampled_channels cfg s0 es = map (\<lambda>k. k mod ?C) [0 ..< length ?cs]"
    and cur: "chan s1 = length ?cs mod ?C"
    and adv: "\<forall>(p, q) \<in> set ?cs. chan q = (chan p + 1) mod ?C"
    by blast
  from step_inv [OF assms(1) s1(2)] obtain s2 where s2: "step cfg s1 e = Inr s2" "sensor_inv cfg s2"
    by blast
  have r: "run cfg s0 (es @ [e]) = Inr s2" using s1(1) s2(1) by (simp add: run_snoc)
  note cv = conversions_snoc [OF s1(1) s2(1)]
  note sv = sampled_channels_snoc [OF s1(1) s2(1)]
  from s1(2) s2(1) show ?case
  proof (cases rule: step_cases)
    case start
    then show ?thesis
      using r s2(2) seq cur adv cv sv by (simp add: startSensing_fields)
  next
    case (idle v)
    then show ?thesis
      using r s2(2) seq cur adv cv sv by simp
  next
    case (fire v p)
    have "chan s2 = (chan s1 + 1) mod ?C" by (simp add: fire(4) fire_fields)
    moreover have "conversions cfg s0 (es @ [e]) = ?cs @ [(s1, s2)]"
      using cv fire(1,2) by simp
    moreover have "sampled_channels cfg s0 (es @ [e]) = sampled_channels cfg s0 es @ [chan s1]"
      using sv fire(1,2) by simp
    ultimately show ?thesis
      using r s2(2) seq cur adv by (simp add: mod_Suc_eq)
  qed
qed

lemma slots_track_samples:
  assumes "chan_num_ok cfg" "sensor_inv cfg s0" "\<forall>r \<in> set (results s0). r = - 1"
  shows "\<exists>s. run cfg s0 es = Inr s \<and> sensor_inv cfg s
     \<and> (\<forall>i < MICROBIT_LIGHT_SENSOR_CHAN_NUM cfg.
           results s ! i < 0 \<longleftrightarrow> i \<notin> set (sampled_channels cfg s0 es))"
proof (induction es rule: rev_induct)
  case Nil
  have "results s0 ! i = - 1" if "i < MICROBIT_LIGHT_SENSOR_CHAN_NUM cfg" for i
    using that assms(2,3) by (simp add: sensor_inv_def)
  then show ?case using assms(2) by (simp add: sampled_channels_def)
next
  case (snoc e es)
  let ?C = "MICROBIT_LIGHT_SENSOR_CHAN_NUM cfg"
  let ?cs = "conversions cfg s0 es"
  from snoc obtain s1 where s1: "run cfg s0 es = Inr s1" "sensor_inv cfg s1"
    and neg: "\<forall>i < ?C. results s1 ! i < 0 \<longleftrightarrow> i \<notin> set (sampled_channels cfg s0 es)"
    by blast
  from step_inv [OF assms(1) s1(2)] obtain s2 where s2: "step cfg s1 e = Inr s2" "sensor_inv cfg s2"
    by blast
  have r: "run cfg s0 (es @ [e]) = Inr s2" using s1(1) s2(1) by (simp add: run_snoc)
  note cv = sampled_channels_snoc [OF s1(1) s2(1)]
  from s1(2) s2(1) show ?case
  proof (cases rule: step_cases)
    case start
    then show ?thesis
      using r s2(2) neg cv by (simp add: startSensing_fields)
  next
    case (idle v)
    then show ?thesis
      using r s2(2) neg cv by simp
  next
    case (fire v p)
    have len: "length (results s1) = ?C" using s1(2) by (simp add: sensor_inv_def)
    have res: "results s2 = (results s1)[chan s1 := uint v]" by (simp add: fire(4) fire_fields)
    have cs: "sampled_channels cfg s0 (es @ [e]) = sampled_channels cfg s0 es @ [chan s1]"
      using cv fire(1,2) by simp
    have "results s2 ! i < 0 \<longleftrightarrow> i \<notin> set (sampled_channels cfg s0 es @ [chan s1])"
      if "i < ?C" for i
    proof (cases "i = chan s1")
      case True
      then show ?thesis using that len by (simp add: res)
    next
      case False
      then show ?thesis using that neg by (simp add: res)
    qed
    then show ?thesis using r s2(2) cs by simp
  qed
qed

lemma valid_average_tracks:
  assumes "chan_num_ok cfg" "sensor_inv cfg s0" "valid_average s0 = - 1"
  shows "\<exists>s. run cfg s0 es = Inr s \<and> sensor_inv cfg s
     \<and> (if valid_cycle_completed cfg s0 es then 0 \<le> valid_average s else valid_average s = - 1)"
proof (induction es rule: rev_induct)
  case Nil
  show ?case using assms by (simp add: valid_cycle_completed_def)
next
  case (snoc e es)
  from snoc obtain s1 where s1: "run cfg s0 es = Inr s1" "sensor_inv cfg s1"
    and va: "if valid_cycle_completed cfg s0 es then 0 \<le> valid_average s1 else valid_average s1 = - 1"
    by blast
  from step_inv [OF assms(1) s1(2)] obtain s2 where s2: "step cfg s1 e = Inr s2" "sensor_inv cfg s2"
    by blast
  have r: "run cfg s0 (es @ [e]) = Inr s2" using s1(1) s2(1) by (simp add: run_snoc)
  note cv = conversions_snoc [OF s1(1) s2(1)]
  from s1(2) s2(1) show ?case
  proof (cases rule: step_cases)
    case start
    then show ?thesis
      using r s2(2) va cv by (simp add: startSensing_fields valid_cycle_completed_def)
  next
    case (idle v)
    then show ?thesis
      using r s2(2) va cv by (simp add: valid_cycle_completed_def)
  next
    case (fire v p)
    define smp where "smp = sample cfg v p (s1\<lparr>analogTrigger := False\<rparr>)"
    have s2eq: "s2 = snd (update_averages cfg smp)" by (simp add: fire(4) smp_def)
    have "results s2 = results smp" by (simp add: s2eq update_averages_frame)
    then have vr: "valid_results cfg smp = valid_results cfg s2" by (rule valid_results_cong [symmetric])
    have inv_smp: "sensor_inv cfg smp"
      using s2(2) by (simp add: s2eq sensor_inv_def update_averages_frame)
    have nn: "0 \<le> average s2" unfolding s2eq by (rule average_nonneg [OF assms(1) inv_smp])
    have "valid_average smp = valid_average s1" by (simp add: smp_def sample_def)
    then have va2: "valid_average s2 = (if valid_results cfg s2 then average s2 else valid_average s1)"
      using vr by (simp add: s2eq update_averages_valid_average)
    have "valid_cycle_completed cfg s0 (es @ [e]) \<longleftrightarrow>
        valid_cycle_completed cfg s0 es \<or> valid_results cfg s2"
      using cv fire(1,2) by (simp add: valid_cycle_completed_def)
    then show ?thesis
      using r s2(2) va va2 nn by auto
  qed
qed

subsection \<open>The completed conversions of a run\<close>

lemma conversions_fire:
  assumes "chan_num_ok cfg"
  shows "sensor_inv cfg s0 \<Longrightarrow> (p, q) \<in> set (conversions cfg s0 es) \<Longrightarrow>
     sensor_inv cfg p \<and> sensor_inv cfg q \<and>
     (\<exists>v pin. q = snd (update_averages cfg (sample cfg v pin (p\<lparr>analogTrigger := False\<rparr>))))"
proof (induction es arbitrary: s0)
  case Nil
  then show ?case by simp
next
  case (Cons e es)
  from step_inv [OF assms Cons.prems(1)] obtain s1 where s1: "step cfg s0 e = Inr s1" "sensor_inv cfg s1"
    by blast
  from Cons.prems(1) s1(1) show ?case
  proof (cases rule: step_cases)
    case start
    then have "(p, q) \<in> set (conversions cfg s1 es)" using Cons.prems(2) s1(1) by simp
    then show ?thesis by (rule Cons.IH [OF s1(2)])
  next
    case (idle v)
    then have "(p, q) \<in> set (conversions cfg s1 es)" using Cons.prems(2) s1(1) by simp
    then show ?thesis by (rule Cons.IH [OF s1(2)])
  next
    case (fire v pin)
    then have "(p, q) = (s0, s1) \<or> (p, q) \<in> set (conversions cfg s1 es)"
      using Cons.prems(2) s1(1) by simp
    then show ?thesis
    proof
      assume "(p, q) = (s0, s1)"
      then show ?thesis using Cons.prems(1) s1(2) fire(4) by blast
    next
      assume "(p, q) \<in> set (conversions cfg s1 es)"
      then show ?thesis by (rule Cons.IH [OF s1(2)])
    qed
  qed
qed

lemma sample_fields:
  "results (sample cfg v pin s) = (results s)[chan s := uint v]"
  "valid_average (sample cfg v pin s) = valid_average s"
  "raised (sample cfg v pin s) = raised s"
  by (simp_all add: sample_def)

lemma conversion_average:
  assumes "chan_num_ok cfg" "sensor_inv cfg s0" "(p, q) \<in> set (conversions cfg s0 es)"
  shows "average q =
     (\<Sum>i < MICROBIT_LIGHT_SENSOR_CHAN_NUM cfg. max (results q ! i) 0)
       div int (MICROBIT_LIGHT_SENSOR_CHAN_NUM cfg)"
proof -
  let ?C = "MICROBIT_LIGHT_SENSOR_CHAN_NUM cfg"
  from conversions_fire [OF assms] obtain v pin where q: "sensor_inv cfg q"
    and qeq: "q = snd (update_averages cfg (sample cfg v pin (p\<lparr>analogTrigger := False\<rparr>)))"
    by blast
  define smp where "smp = sample cfg v pin (p\<lparr>analogTrigger := False\<rparr>)"
  have r: "results q = results smp" by (simp add: qeq smp_def update_averages_frame)
  have "\<forall>i < ?C. results smp ! i \<le> 65535"
    using sensor_inv_slot [OF q, THEN slot_ok_le] r by simp
  then have "average (snd (update_averages cfg smp)) = (\<Sum>i < ?C. max (results smp ! i) 0) div int ?C"
    using assms(1) by (intro update_averages_average_eq) (simp_all add: chan_num_ok_def)
  moreover have "q = snd (update_averages cfg smp)" by (simp add: qeq smp_def)
  ultimately have "average q = (\<Sum>i < ?C. max (results smp ! i) 0) div int ?C" by simp
  then show ?thesis by (simp only: r)
qed

lemma conversion_valid_average:
  assumes "chan_num_ok cfg" "sensor_inv cfg s0" "(p, q) \<in> set (conversions cfg s0 es)"
  shows "valid_average q = (if valid_results cfg q then average q else valid_average p)"
    and "raised q =
      (if valid_results cfg q
       then raised p @ [(MICROBIT_ID_LIGHT_SENSOR, MICROBIT_DISPLAY_EVT_LIGHT_SENSE_READY)]
       else raised p)"
proof -
  from conversions_fire [OF assms] obtain v pin where
    qeq: "q = snd (update_averages cfg (sample cfg v pin (p\<lparr>analogTrigger := False\<rparr>)))"
    by blast
  define smp where "smp = sample cfg v pin (p\<lparr>analogTrigger := False\<rparr>)"
  have "results q = results smp" by (simp add: qeq smp_def update_averages_frame)
  then have vr: "valid_results cfg smp = valid_results cfg q" by (rule valid_results_cong [symmetric])
  have p: "valid_average smp = valid_average p" "raised smp = raised p"
    by (simp_all add: smp_def sample_fields)
  show "valid_average q = (if valid_results cfg q then average q else valid_average p)"
    using vr p(1) update_averages_valid_average [of cfg smp] by (simp add: qeq smp_def)
  show "raised q =
      (if valid_results cfg q
       then raised p @ [(MICROBIT_ID_LIGHT_SENSOR, MICROBIT_DISPLAY_EVT_LIGHT_SENSE_READY)]
       else raised p)"
    using vr p(2) update_averages_raised [of cfg smp] by (simp add: qeq smp_def)
qed

subsection \<open>Evaluating runs of undisturbed cycles\<close>

lemma step_cycle:
  assumes "chan s < length (results s)"
  shows "step cfg (startSensing cfg s) (Expire v) = Inr (cycle cfg v s)"
proof -
  have "analogReady cfg v ((startSensing cfg s)\<lparr>analogTrigger := False\<rparr>) = Inr (cycle cfg v s)"
    unfolding cycle_def using assms
    by (intro analogReady_eq) (simp_all add: startSensing_fields)
  then show ?thesis by (simp add: startSensing_fields)
qed

lemma run_cycle:
  "chan s < length (results s) \<Longrightarrow>
   run cfg s (Start # Expire v # es) = run cfg (cycle cfg v s) es"
  by (simp add: step_cycle del: step.simps(2))

lemma conversions_cycle:
  "chan s < length (results s) \<Longrightarrow>
   conversions cfg s (Start # Expire v # es) =
     (startSensing cfg s, cycle cfg v s) # conversions cfg (cycle cfg v s) es"
  by (simp add: step_cycle startSensing_fields del: step.simps(2))

lemma cycle_fields:
  "results (cycle cfg v s) = (results s)[chan s := uint v]"
  "chan (cycle cfg v s) = (chan s + 1) mod MICROBIT_LIGHT_SENSOR_CHAN_NUM cfg"
  "matrixMap (cycle cfg v s) = matrixMap s"
  "analogTrigger (cycle cfg v s) = False"
  "valid_average (cycle cfg v s) =
     (if valid_results cfg (cycle cfg v s) then average (cycle cfg v s) else valid_average s)"
  "average (cycle cfg v s) =
     c_div (snd (fold (update_averages_body ((results s)[chan s := uint v]))
              [0 ..< MICROBIT_LIGHT_SENSOR_CHAN_NUM cfg] (True, 0)))
       (int (MICROBIT_LIGHT_SENSOR_CHAN_NUM cfg))"
proof -
  let ?m = "sample cfg v (columnStart (matrixMap s) + chan s) ((startSensing cfg s)\<lparr>analogTrigger := False\<rparr>)"
  have r: "results ?m = (results s)[chan s := uint v]"
    by (simp add: sample_def startSensing_fields)
  show "results (cycle cfg v s) = (results s)[chan s := uint v]"
    by (simp add: cycle_def update_averages_frame r)
  then have "valid_results cfg (cycle cfg v s) = valid_results cfg ?m"
    using r by (simp add: valid_results_def)
  then show "valid_average (cycle cfg v s) =
     (if valid_results cfg (cycle cfg v s) then average (cycle cfg v s) else valid_average s)"
    by (simp add: cycle_def update_averages_valid_average sample_def startSensing_fields)
  show "chan (cycle cfg v s) = (chan s + 1) mod MICROBIT_LIGHT_SENSOR_CHAN_NUM cfg"
    "matrixMap (cycle cfg v s) = matrixMap s"
    "analogTrigger (cycle cfg v s) = False"
    by (simp_all add: cycle_def update_averages_frame sample_def startSensing_fields)
  show "average (cycle cfg v s) =
     c_div (snd (fold (update_averages_body ((results s)[chan s := uint v]))
              [0 ..< MICROBIT_LIGHT_SENSOR_CHAN_NUM cfg] (True, 0)))
       (int (MICROBIT_LIGHT_SENSOR_CHAN_NUM cfg))"
    using r by (simp add: cycle_def update_averages_average loop_sum_def)
qed

lemma upt3: "[0 ..< 3] = [0, 1, 2]"
  by (simp add: upt_rec)

lemma s0_fields:
  "results (MicroBitLightSensor cfg0 mp0 raw0) = [- 1, - 1, - 1]"
  "chan (MicroBitLightSensor cfg0 mp0 raw0) = 0"
  "valid_average (MicroBitLightSensor cfg0 mp0 raw0) = - 1"
  "matrixMap (MicroBitLightSensor cfg0 mp0 raw0) = mp0"
proof -
  have l: "length (results raw0) = MICROBIT_LIGHT_SENSOR_CHAN_NUM cfg0"
    by (simp add: raw0_def cfg0_def)
  show "results (MicroBitLightSensor cfg0 mp0 raw0) = [- 1, - 1, - 1]"
    using constructor_fields(1) [OF l, of mp0] by (simp add: cfg0_def numeral_3_eq_3)
  show "chan (MicroBitLightSensor cfg0 mp0 raw0) = 0"
    "valid_average (MicroBitLightSensor cfg0 mp0 raw0) = - 1"
    "matrixMap (MicroBitLightSensor cfg0 mp0 raw0) = mp0"
    by (simp_all add: constructor_fields [OF l])
qed

lemma chan_num0: "MICROBIT_LIGHT_SENSOR_CHAN_NUM cfg0 = 3"
  by (simp add: cfg0_def)

lemmas eval_run = run_cycle conversions_cycle cycle_fields s0_fields chan_num0 upt3
  valid_results_set startSensing_fields update_averages_body_def int32_def c_div_def

lemma case_Inr_ex:
  assumes "case x of Inl err \<Rightarrow> False | Inr s \<Rightarrow> P s"
  obtains s where "x = Inr s" "P s"
  using assms by (cases x) simp_all

section \<open>The claims\<close>

text \<open>
  Claim C1. For every array \<^verbatim>\<open>results\<close> of \<open>CHAN_NUM\<close> slots, the validity that
  \<^verbatim>\<open>update_averages\<close> computes and returns holds if and only if every channel value lies
  in the inclusive range from 0 to 450. In particular a channel that still holds the
  sentinel \<open>-1\<close> makes the cycle invalid.
\<close>

theorem validity_iff_all_in_range:
  assumes "0 < MICROBIT_LIGHT_SENSOR_CHAN_NUM cfg"
    and "length (results s) = MICROBIT_LIGHT_SENSOR_CHAN_NUM cfg"
  shows "(fst (update_averages cfg s) \<longleftrightarrow> (\<forall>r \<in> set (results s). 0 \<le> r \<and> r \<le> 450))
       \<and> (- 1 \<in> set (results s) \<longrightarrow> \<not> fst (update_averages cfg s))"
proof -
  have "fst (update_averages cfg s) \<longleftrightarrow> (\<forall>r \<in> set (results s). 0 \<le> r \<and> r \<le> 450)"
    using assms(2) by (simp add: update_averages_fst valid_results_set)
  then show ?thesis by auto
qed

theorem validity_iff_all_in_range_witness:
  "fst (update_averages cfg0 (raw0\<lparr>results := [100, 150, 125]\<rparr>))
   \<and> \<not> fst (update_averages cfg0 (raw0\<lparr>results := [100, 451, 125]\<rparr>))
   \<and> \<not> fst (update_averages cfg0 (raw0\<lparr>results := [100, 150, - 1]\<rparr>))"
  using validity_iff_all_in_range [where s = "raw0\<lparr>results := [100, 150, 125]\<rparr>" and cfg = cfg0]
    validity_iff_all_in_range [where s = "raw0\<lparr>results := [100, 451, 125]\<rparr>" and cfg = cfg0]
    validity_iff_all_in_range [where s = "raw0\<lparr>results := [100, 150, - 1]\<rparr>" and cfg = cfg0]
  by (simp add: cfg0_def)

text \<open>
  Claim C2. Every call of \<^verbatim>\<open>update_averages\<close> sets \<^verbatim>\<open>average\<close> to the floor of the sum,
  over the \<open>CHAN_NUM\<close> channels, of \<open>max(results[i], 0)\<close> divided by \<open>CHAN_NUM\<close>, whether
  the results are valid or not; a slot holding the sentinel \<open>-1\<close> counts as 0. This
  holds of \<^verbatim>\<open>update_averages\<close> on every array whose slots do not exceed 65535, the
  largest value a conversion returns, where the sum fits the 32-bit local; and it holds
  of every completed conversion in every run of a newly constructed sensor.
\<close>

theorem running_average_floor:
  assumes "chan_num_ok cfg"
  shows "(length (results s) = MICROBIT_LIGHT_SENSOR_CHAN_NUM cfg
          \<and> (\<forall>r \<in> set (results s). r \<le> 65535) \<longrightarrow>
          average (snd (update_averages cfg s)) =
            (\<Sum>i < MICROBIT_LIGHT_SENSOR_CHAN_NUM cfg. max (results s ! i) 0)
              div int (MICROBIT_LIGHT_SENSOR_CHAN_NUM cfg))
     \<and> (length (results raw) = MICROBIT_LIGHT_SENSOR_CHAN_NUM cfg \<longrightarrow>
          (\<forall>(p, q) \<in> set (conversions cfg (MicroBitLightSensor cfg mp raw) es).
             average q =
               (\<Sum>i < MICROBIT_LIGHT_SENSOR_CHAN_NUM cfg. max (results q ! i) 0)
                 div int (MICROBIT_LIGHT_SENSOR_CHAN_NUM cfg)))"
proof (intro conjI impI)
  assume a: "length (results s) = MICROBIT_LIGHT_SENSOR_CHAN_NUM cfg
          \<and> (\<forall>r \<in> set (results s). r \<le> 65535)"
  then have "\<forall>i < MICROBIT_LIGHT_SENSOR_CHAN_NUM cfg. results s ! i \<le> 65535" by simp
  then show "average (snd (update_averages cfg s)) =
            (\<Sum>i < MICROBIT_LIGHT_SENSOR_CHAN_NUM cfg. max (results s ! i) 0)
              div int (MICROBIT_LIGHT_SENSOR_CHAN_NUM cfg)"
    using assms by (intro update_averages_average_eq) (simp_all add: chan_num_ok_def)
next
  assume "length (results raw) = MICROBIT_LIGHT_SENSOR_CHAN_NUM cfg"
  with assms have "sensor_inv cfg (MicroBitLightSensor cfg mp raw)" by (rule constructor_inv)
  then show "\<forall>(p, q) \<in> set (conversions cfg (MicroBitLightSensor cfg mp raw) es).
             average q =
               (\<Sum>i < MICROBIT_LIGHT_SENSOR_CHAN_NUM cfg. max (results q ! i) 0)
                 div int (MICROBIT_LIGHT_SENSOR_CHAN_NUM cfg)"
    using conversion_average [OF assms] by blast
qed

theorem running_average_floor_witness:
  "average (snd (update_averages cfg0 (raw0\<lparr>results := [100, - 1, - 1]\<rparr>))) = 33
   \<and> \<not> fst (update_averages cfg0 (raw0\<lparr>results := [100, - 1, - 1]\<rparr>))
   \<and> (\<exists>s. run cfg0 (MicroBitLightSensor cfg0 mp0 raw0)
              [Start, Expire 100, Start, Expire 150, Start, Expire 125] = Inr s
          \<and> average s = 125)"
proof -
  let ?s0 = "MicroBitLightSensor cfg0 mp0 raw0"
  let ?es = "[Start, Expire 100, Start, Expire 150, Start, Expire 125]"
  let ?q = "cycle cfg0 125 (cycle cfg0 150 (cycle cfg0 100 ?s0))"
  have c: "chan_num_ok cfg0" by (simp add: chan_num_ok_def cfg0_def)
  note t = running_average_floor [OF c,
      where s = "raw0\<lparr>results := [100, - 1, - 1]\<rparr>" and raw = raw0 and mp = mp0 and es = ?es]
  have "average (snd (update_averages cfg0 (raw0\<lparr>results := [100, - 1, - 1]\<rparr>))) = 33"
    using t [THEN conjunct1] by (simp add: cfg0_def lessThan_nat_numeral lessThan_Suc)
  moreover have "\<not> fst (update_averages cfg0 (raw0\<lparr>results := [100, - 1, - 1]\<rparr>))"
    by (simp add: update_averages_fst_set cfg0_def)
  moreover have r: "run cfg0 ?s0 ?es = Inr ?q"
    by (simp add: eval_run del: run.simps(2) conversions.simps(2))
  moreover have "average ?q = 125"
  proof -
    have "(startSensing cfg0 (cycle cfg0 150 (cycle cfg0 100 ?s0)), ?q) \<in> set (conversions cfg0 ?s0 ?es)"
      by (simp add: eval_run del: run.simps(2) conversions.simps(2))
    moreover have "length (results raw0) = MICROBIT_LIGHT_SENSOR_CHAN_NUM cfg0"
      by (simp add: raw0_def cfg0_def)
    ultimately have "average ?q = (\<Sum>i < 3. max (results ?q ! i) 0) div 3"
      using t [THEN conjunct2] unfolding chan_num0 by fastforce
    moreover have "results ?q = [100, 150, 125]"
      by (simp add: eval_run del: run.simps(2) conversions.simps(2))
    ultimately show ?thesis by (simp add: lessThan_nat_numeral lessThan_Suc)
  qed
  ultimately show ?thesis by simp
qed

text \<open>
  Claim C3. When the validity computed by \<^verbatim>\<open>update_averages\<close> holds, \<^verbatim>\<open>valid_average\<close>
  becomes the \<^verbatim>\<open>average\<close> just computed and exactly one event with source
  \<open>MICROBIT_ID_LIGHT_SENSOR\<close> and value \<open>MICROBIT_DISPLAY_EVT_LIGHT_SENSE_READY\<close> is
  raised. When it does not hold, \<^verbatim>\<open>valid_average\<close> keeps its value and no event is
  raised. This holds of every call of \<^verbatim>\<open>update_averages\<close>, and so of every completed
  conversion in every run of a newly constructed sensor: a conversion that leaves
  every channel valid raises the event once, any other raises none.
\<close>

theorem valid_average_and_notification:
  assumes "chan_num_ok cfg"
  shows "(length (results s) = MICROBIT_LIGHT_SENSOR_CHAN_NUM cfg \<longrightarrow>
          (fst (update_averages cfg s) \<longrightarrow>
             valid_average (snd (update_averages cfg s)) = average (snd (update_averages cfg s))
             \<and> raised (snd (update_averages cfg s)) =
                 raised s @ [(MICROBIT_ID_LIGHT_SENSOR, MICROBIT_DISPLAY_EVT_LIGHT_SENSE_READY)])
          \<and> (\<not> fst (update_averages cfg s) \<longrightarrow>
             valid_average (snd (update_averages cfg s)) = valid_average s
             \<and> raised (snd (update_averages cfg s)) = raised s))
     \<and> (length (results raw) = MICROBIT_LIGHT_SENSOR_CHAN_NUM cfg \<longrightarrow>
          (\<forall>(p, q) \<in> set (conversions cfg (MicroBitLightSensor cfg mp raw) es).
             (valid_results cfg q \<longrightarrow>
                valid_average q = average q
                \<and> raised q = raised p @ [(MICROBIT_ID_LIGHT_SENSOR, MICROBIT_DISPLAY_EVT_LIGHT_SENSE_READY)])
             \<and> (\<not> valid_results cfg q \<longrightarrow>
                valid_average q = valid_average p \<and> raised q = raised p)))"
proof -
  have one: "(fst (update_averages cfg s) \<longrightarrow>
             valid_average (snd (update_averages cfg s)) = average (snd (update_averages cfg s))
             \<and> raised (snd (update_averages cfg s)) =
                 raised s @ [(MICROBIT_ID_LIGHT_SENSOR, MICROBIT_DISPLAY_EVT_LIGHT_SENSE_READY)])
          \<and> (\<not> fst (update_averages cfg s) \<longrightarrow>
             valid_average (snd (update_averages cfg s)) = valid_average s
             \<and> raised (snd (update_averages cfg s)) = raised s)"
    by (simp add: update_averages_eq)
  have every: "\<forall>(p, q) \<in> set (conversions cfg (MicroBitLightSensor cfg mp raw) es).
             (valid_results cfg q \<longrightarrow>
                valid_average q = average q
                \<and> raised q = raised p @ [(MICROBIT_ID_LIGHT_SENSOR, MICROBIT_DISPLAY_EVT_LIGHT_SENSE_READY)])
             \<and> (\<not> valid_results cfg q \<longrightarrow>
                valid_average q = valid_average p \<and> raised q = raised p)"
    if "length (results raw) = MICROBIT_LIGHT_SENSOR_CHAN_NUM cfg"
  proof -
    from assms that have i: "sensor_inv cfg (MicroBitLightSensor cfg mp raw)"
      by (rule constructor_inv)
    show ?thesis using conversion_valid_average [OF assms i] by auto
  qed
  from one every show ?thesis by blast
qed

theorem valid_average_and_notification_witness:
  "valid_average (snd (update_averages cfg0 (raw0\<lparr>results := [100, 150, 125], valid_average := - 1\<rparr>)))
     = average (snd (update_averages cfg0 (raw0\<lparr>results := [100, 150, 125], valid_average := - 1\<rparr>)))
   \<and> raised (snd (update_averages cfg0 (raw0\<lparr>results := [100, 150, 125], valid_average := - 1\<rparr>))) =
       [(MICROBIT_ID_LIGHT_SENSOR, MICROBIT_DISPLAY_EVT_LIGHT_SENSE_READY)]
   \<and> valid_average (snd (update_averages cfg0 (raw0\<lparr>results := [100, 150, 451], valid_average := 125\<rparr>))) = 125
   \<and> raised (snd (update_averages cfg0 (raw0\<lparr>results := [100, 150, 451], valid_average := 125\<rparr>))) = []
   \<and> (\<exists>s s'. run cfg0 (MicroBitLightSensor cfg0 mp0 raw0)
                 [Start, Expire 100, Start, Expire 150] = Inr s
             \<and> run cfg0 s [Start, Expire 125] = Inr s'
             \<and> valid_average s = - 1 \<and> raised s' = raised s @ [(MICROBIT_ID_LIGHT_SENSOR, MICROBIT_DISPLAY_EVT_LIGHT_SENSE_READY)]
             \<and> valid_average s' = average s')"
proof -
  let ?s0 = "MicroBitLightSensor cfg0 mp0 raw0"
  let ?es = "[Start, Expire 100, Start, Expire 150, Start, Expire 125]"
  let ?p = "cycle cfg0 150 (cycle cfg0 100 ?s0)"
  let ?q = "cycle cfg0 125 ?p"
  let ?a = "raw0\<lparr>results := [100, 150, 125], valid_average := - 1\<rparr>"
  let ?b = "raw0\<lparr>results := [100, 150, 451], valid_average := 125\<rparr>"
  have c: "chan_num_ok cfg0" by (simp add: chan_num_ok_def cfg0_def)
  note ta = valid_average_and_notification [OF c,
      where s = ?a and raw = raw0 and mp = mp0 and es = ?es, THEN conjunct1]
  note tb = valid_average_and_notification [OF c,
      where s = ?b and raw = raw0 and mp = mp0 and es = ?es]
  have va: "fst (update_averages cfg0 ?a)" by (simp add: update_averages_fst_set cfg0_def raw0_def)
  have vb: "\<not> fst (update_averages cfg0 ?b)" by (simp add: update_averages_fst_set cfg0_def raw0_def)
  have la: "length (results ?a) = MICROBIT_LIGHT_SENSOR_CHAN_NUM cfg0"
    and lb: "length (results ?b) = MICROBIT_LIGHT_SENSOR_CHAN_NUM cfg0"
    by (simp_all add: cfg0_def)
  have 1: "valid_average (snd (update_averages cfg0 ?a)) = average (snd (update_averages cfg0 ?a))
      \<and> raised (snd (update_averages cfg0 ?a)) =
          [(MICROBIT_ID_LIGHT_SENSOR, MICROBIT_DISPLAY_EVT_LIGHT_SENSE_READY)]"
    using ta la va by (simp add: raw0_def)
  have 2: "valid_average (snd (update_averages cfg0 ?b)) = 125
      \<and> raised (snd (update_averages cfg0 ?b)) = []"
    using tb [THEN conjunct1] lb vb by (simp add: raw0_def)
  have r1: "run cfg0 ?s0 [Start, Expire 100, Start, Expire 150] = Inr ?p"
    by (simp add: eval_run del: run.simps(2) conversions.simps(2))
  have r2: "run cfg0 ?p [Start, Expire 125] = Inr ?q"
    by (simp add: eval_run del: run.simps(2) conversions.simps(2))
  have m: "(startSensing cfg0 ?p, ?q) \<in> set (conversions cfg0 ?s0 ?es)"
    by (simp add: eval_run del: run.simps(2) conversions.simps(2))
  have l: "length (results raw0) = MICROBIT_LIGHT_SENSOR_CHAN_NUM cfg0"
    by (simp add: raw0_def cfg0_def)
  have vq: "valid_results cfg0 ?q"
    by (simp add: eval_run del: run.simps(2) conversions.simps(2))
  have "valid_average ?q = average ?q
      \<and> raised ?q = raised (startSensing cfg0 ?p)
           @ [(MICROBIT_ID_LIGHT_SENSOR, MICROBIT_DISPLAY_EVT_LIGHT_SENSE_READY)]"
    using tb [THEN conjunct2] l m vq by fastforce
  moreover have "valid_average ?p = - 1"
    by (simp add: eval_run del: run.simps(2) conversions.simps(2))
  ultimately have 3: "valid_average ?p = - 1
      \<and> raised ?q = raised ?p @ [(MICROBIT_ID_LIGHT_SENSOR, MICROBIT_DISPLAY_EVT_LIGHT_SENSE_READY)]
      \<and> valid_average ?q = average ?q"
    by (simp add: startSensing_fields)
  from 1 2 3 r1 r2 show ?thesis by blast
qed

text \<open>
  Claim C4. In the state any run of a newly constructed sensor reaches, \<^verbatim>\<open>read(true)\<close>
  returns the sentinel \<open>-1\<close> if and only if no conversion of the run has completed with
  every channel value valid: it returns the sentinel before the first fully valid cycle,
  and never after one, whatever the later cycles are.
\<close>

theorem read_valid_only_sentinel:
  assumes "chan_num_ok cfg" "range_ok cfg"
    and "length (results raw) = MICROBIT_LIGHT_SENSOR_CHAN_NUM cfg"
  shows "\<exists>s. run cfg (MicroBitLightSensor cfg mp raw) es = Inr s
     \<and> (read cfg s True = - 1 \<longleftrightarrow>
          \<not> valid_cycle_completed cfg (MicroBitLightSensor cfg mp raw) es)"
proof -
  let ?s0 = "MicroBitLightSensor cfg mp raw"
  have "sensor_inv cfg ?s0" using assms(1,3) by (rule constructor_inv)
  moreover have "valid_average ?s0 = - 1" using assms(3) by (rule constructor_fields)
  ultimately obtain s where s: "run cfg ?s0 es = Inr s"
    and va: "if valid_cycle_completed cfg ?s0 es then 0 \<le> valid_average s else valid_average s = - 1"
    using valid_average_tracks [OF assms(1), of ?s0 es] by blast
  have "read cfg s True = - 1 \<longleftrightarrow> \<not> valid_cycle_completed cfg ?s0 es"
  proof (cases "valid_cycle_completed cfg ?s0 es")
    case True
    then have "0 \<le> valid_average s" using va by simp
    then have "0 \<le> read cfg s True" using read_range [OF assms(2), of True s] by simp
    then show ?thesis using True by simp
  next
    case False
    then have "valid_average s = - 1" using va by simp
    then show ?thesis using False by (simp add: read_sentinel)
  qed
  then show ?thesis using s by blast
qed

theorem read_valid_only_sentinel_witness:
  "(\<exists>s. run cfg0 (MicroBitLightSensor cfg0 mp0 raw0)
           [Start, Expire 100, Start, Expire 150] = Inr s
        \<and> read cfg0 s True = - 1)
   \<and> (\<exists>s. run cfg0 (MicroBitLightSensor cfg0 mp0 raw0)
           [Start, Expire 100, Start, Expire 150, Start, Expire 125, Start, Expire 451] = Inr s
        \<and> read cfg0 s True \<noteq> - 1)"
proof -
  have c: "chan_num_ok cfg0" by (simp add: chan_num_ok_def cfg0_def)
  have r: "range_ok cfg0" by (simp add: range_ok_def cfg0_def)
  have l: "length (results raw0) = MICROBIT_LIGHT_SENSOR_CHAN_NUM cfg0"
    by (simp add: raw0_def cfg0_def)
  have a: "\<not> valid_cycle_completed cfg0 (MicroBitLightSensor cfg0 mp0 raw0)
             [Start, Expire 100, Start, Expire 150]"
    by (simp add: eval_run valid_cycle_completed_def del: run.simps(2) conversions.simps(2))
  have b: "valid_cycle_completed cfg0 (MicroBitLightSensor cfg0 mp0 raw0)
             [Start, Expire 100, Start, Expire 150, Start, Expire 125, Start, Expire 451]"
    by (simp add: eval_run valid_cycle_completed_def del: run.simps(2) conversions.simps(2))
  from read_valid_only_sentinel [OF c r l, of mp0 "[Start, Expire 100, Start, Expire 150]"] a
  have "\<exists>s. run cfg0 (MicroBitLightSensor cfg0 mp0 raw0)
           [Start, Expire 100, Start, Expire 150] = Inr s \<and> read cfg0 s True = - 1"
    by blast
  moreover
  from read_valid_only_sentinel [OF c r l, of mp0
        "[Start, Expire 100, Start, Expire 150, Start, Expire 125, Start, Expire 451]"] b
  have "\<exists>s. run cfg0 (MicroBitLightSensor cfg0 mp0 raw0)
           [Start, Expire 100, Start, Expire 150, Start, Expire 125, Start, Expire 451] = Inr s
        \<and> read cfg0 s True \<noteq> - 1"
    by blast
  ultimately show ?thesis by blast
qed

text \<open>
  Claim C5. The channel index is 0 after construction and stays below \<open>CHAN_NUM\<close>. Each
  completed conversion advances it by one modulo \<open>CHAN_NUM\<close>, so that after \<open>n\<close>
  conversions it is \<open>n mod CHAN_NUM\<close> and the channels sampled were, in order,
  \<open>0, 1, ..., CHAN_NUM - 1, 0, 1, ...\<close>: none skipped, none repeated out of order.
\<close>

theorem channel_index_round_robin:
  assumes "chan_num_ok cfg"
    and "length (results raw) = MICROBIT_LIGHT_SENSOR_CHAN_NUM cfg"
  shows "chan (MicroBitLightSensor cfg mp raw) = 0
     \<and> (\<exists>s. run cfg (MicroBitLightSensor cfg mp raw) es = Inr s
          \<and> chan s < MICROBIT_LIGHT_SENSOR_CHAN_NUM cfg
          \<and> chan s = length (conversions cfg (MicroBitLightSensor cfg mp raw) es)
                       mod MICROBIT_LIGHT_SENSOR_CHAN_NUM cfg
          \<and> sampled_channels cfg (MicroBitLightSensor cfg mp raw) es =
              map (\<lambda>k. k mod MICROBIT_LIGHT_SENSOR_CHAN_NUM cfg)
                [0 ..< length (conversions cfg (MicroBitLightSensor cfg mp raw) es)]
          \<and> (\<forall>(p, q) \<in> set (conversions cfg (MicroBitLightSensor cfg mp raw) es).
                chan q = (chan p + 1) mod MICROBIT_LIGHT_SENSOR_CHAN_NUM cfg))"
proof -
  let ?s0 = "MicroBitLightSensor cfg mp raw"
  have i: "sensor_inv cfg ?s0" using assms by (rule constructor_inv)
  have c: "chan ?s0 = 0" using assms(2) by (rule constructor_fields)
  from round_robin [OF assms(1) i c, of es] show ?thesis
    using c by (auto simp: sensor_inv_def)
qed

theorem channel_index_round_robin_witness:
  "\<exists>s. run cfg0 (MicroBitLightSensor cfg0 mp0 raw0)
          [Start, Expire 100, Start, Expire 150, Start, Expire 125, Start, Expire 90] = Inr s
     \<and> chan s = 1
     \<and> sampled_channels cfg0 (MicroBitLightSensor cfg0 mp0 raw0)
          [Start, Expire 100, Start, Expire 150, Start, Expire 125, Start, Expire 90]
        = [0, 1, 2, 0]"
proof -
  let ?es = "[Start, Expire 100, Start, Expire 150, Start, Expire 125, Start, Expire 90]"
  have c: "chan_num_ok cfg0" by (simp add: chan_num_ok_def cfg0_def)
  have l: "length (results raw0) = MICROBIT_LIGHT_SENSOR_CHAN_NUM cfg0"
    by (simp add: raw0_def cfg0_def)
  have n: "length (conversions cfg0 (MicroBitLightSensor cfg0 mp0 raw0) ?es) = 4"
    by (simp add: eval_run sampled_channels_def del: run.simps(2) conversions.simps(2))
  have m: "map (\<lambda>k. k mod 3) [0 ..< 4] = [0, 1, 2, 0 :: nat]" by (simp add: upt_rec)
  from channel_index_round_robin [OF c l, of mp0 ?es]
  obtain s where "run cfg0 (MicroBitLightSensor cfg0 mp0 raw0) ?es = Inr s"
    and "chan s = 4 mod 3"
    and "sampled_channels cfg0 (MicroBitLightSensor cfg0 mp0 raw0) ?es =
           map (\<lambda>k. k mod 3) [0 ..< 4]"
    unfolding n chan_num0 by blast
  then show ?thesis unfolding m by simp
qed

text \<open>
  Claim C6. Whenever \<^verbatim>\<open>read\<close> does not return the sentinel, it returns the selected
  average clamped into the range from \<open>MIN_VALUE\<close> to \<open>MAX_VALUE\<close>, inverted as
  \<open>(MAX_VALUE - clamped) + MIN_VALUE\<close> and rescaled as
  \<open>(inverted - MIN_VALUE) * 255 / (MAX_VALUE - MIN_VALUE)\<close>, an integer from 0 to 255. The
  dividend is not negative and the divisor is positive, so the truncating division of
  the program is the floor. With \<open>MIN_VALUE = 0\<close>, \<open>MAX_VALUE = 450\<close> and the samples
  100, 150 and 125, whose average is 125, \<^verbatim>\<open>read(false)\<close> returns 184.
\<close>

theorem read_clamps_inverts_rescales:
  assumes "range_ok cfg" and "read cfg s valid_only \<noteq> - 1"
  shows "(let avg = (if valid_only then valid_average s else average s);
              clamped = max (MICROBIT_LIGHT_SENSOR_MIN_VALUE cfg)
                          (min (MICROBIT_LIGHT_SENSOR_MAX_VALUE cfg) avg);
              inverted = (MICROBIT_LIGHT_SENSOR_MAX_VALUE cfg - clamped)
                          + MICROBIT_LIGHT_SENSOR_MIN_VALUE cfg
          in MICROBIT_LIGHT_SENSOR_MIN_VALUE cfg \<le> clamped
             \<and> clamped \<le> MICROBIT_LIGHT_SENSOR_MAX_VALUE cfg
             \<and> 0 \<le> inverted - MICROBIT_LIGHT_SENSOR_MIN_VALUE cfg
             \<and> read cfg s valid_only =
                 (inverted - MICROBIT_LIGHT_SENSOR_MIN_VALUE cfg) * 255
                   div (MICROBIT_LIGHT_SENSOR_MAX_VALUE cfg - MICROBIT_LIGHT_SENSOR_MIN_VALUE cfg))
         \<and> 0 \<le> read cfg s valid_only \<and> read cfg s valid_only \<le> 255"
proof -
  have sel: "\<not> (valid_only \<and> (if valid_only then valid_average s else average s) < 0)"
    using assms(2) read_sentinel [of valid_only s cfg] by blast
  have "MICROBIT_LIGHT_SENSOR_MIN_VALUE cfg < MICROBIT_LIGHT_SENSOR_MAX_VALUE cfg"
    using assms(1) by (simp add: range_ok_def)
  then show ?thesis
    using read_eq [OF assms(1) sel] read_range [OF assms(1) sel]
    by (simp add: Let_def)
qed

theorem read_clamps_inverts_rescales_witness:
  "\<exists>s. run cfg0 (MicroBitLightSensor cfg0 mp0 raw0)
          [Start, Expire 100, Start, Expire 150, Start, Expire 125] = Inr s
     \<and> average s = 125 \<and> read cfg0 s False = 184"
proof -
  have "case run cfg0 (MicroBitLightSensor cfg0 mp0 raw0)
          [Start, Expire 100, Start, Expire 150, Start, Expire 125] of
          Inl err \<Rightarrow> False | Inr s \<Rightarrow> average s = 125"
    by (simp add: eval_run del: run.simps(2) conversions.simps(2))
  then obtain s where s: "run cfg0 (MicroBitLightSensor cfg0 mp0 raw0)
          [Start, Expire 100, Start, Expire 150, Start, Expire 125] = Inr s" "average s = 125"
    by (rule case_Inr_ex)
  have ok: "range_ok cfg0" by (simp add: range_ok_def cfg0_def)
  have ne: "read cfg0 s False \<noteq> - 1"
    using read_range [OF ok, of False s] by simp
  have "read cfg0 s False = 184"
    using read_clamps_inverts_rescales [OF ok ne] s(2) by (simp add: cfg0_def Let_def)
  then show ?thesis using s by blast
qed

text \<open>
  Claim C7, as the constructor has it. After construction every slot of \<^verbatim>\<open>results\<close> is
  the sentinel \<open>-1\<close>, \<^verbatim>\<open>valid_average\<close> is \<open>-1\<close>, the channel index is 0, \<^verbatim>\<open>sensePin\<close> is
  null and the timeout is not armed; the listener for the slot-offered event is
  registered exactly when there is a default event bus.
\<close>

theorem constructor_initialises:
  assumes "length (results raw) = MICROBIT_LIGHT_SENSOR_CHAN_NUM cfg"
  shows "(\<forall>i < MICROBIT_LIGHT_SENSOR_CHAN_NUM cfg. results (MicroBitLightSensor cfg mp raw) ! i = - 1)
     \<and> length (results (MicroBitLightSensor cfg mp raw)) = MICROBIT_LIGHT_SENSOR_CHAN_NUM cfg
     \<and> valid_average (MicroBitLightSensor cfg mp raw) = - 1
     \<and> chan (MicroBitLightSensor cfg mp raw) = 0
     \<and> sensePin (MicroBitLightSensor cfg mp raw) = None
     \<and> \<not> analogTrigger (MicroBitLightSensor cfg mp raw)
     \<and> (listening (MicroBitLightSensor cfg mp raw) \<longleftrightarrow> defaultEventBus raw \<noteq> None)"
proof -
  have "listening (MicroBitLightSensor cfg mp raw) \<longleftrightarrow> defaultEventBus raw \<noteq> None"
    by (cases "defaultEventBus raw")
      (simp_all add: listening_def MicroBitLightSensor_def Let_def listen_def startSensing_listener_def)
  then show ?thesis by (simp add: constructor_fields [OF assms])
qed

theorem constructor_initialises_witness:
  "results (MicroBitLightSensor cfg0 mp0 raw0) = [- 1, - 1, - 1]
   \<and> valid_average (MicroBitLightSensor cfg0 mp0 raw0) = - 1
   \<and> listening (MicroBitLightSensor cfg0 mp0 raw0)
   \<and> \<not> listening (MicroBitLightSensor cfg0 mp0 raw_nobus)"
proof -
  have l: "length (results raw0) = MICROBIT_LIGHT_SENSOR_CHAN_NUM cfg0"
    "length (results raw_nobus) = MICROBIT_LIGHT_SENSOR_CHAN_NUM cfg0"
    by (simp_all add: raw_nobus_def raw0_def cfg0_def)
  have "results (MicroBitLightSensor cfg0 mp0 raw0) = [- 1, - 1, - 1]"
    using constructor_initialises [OF l(1), of mp0]
    by (simp add: cfg0_def list_eq_iff_nth_eq numeral_3_eq_3 All_less_Suc)
  then show ?thesis
    using constructor_initialises [OF l(1), of mp0] constructor_initialises [OF l(2), of mp0]
    by (simp add: raw0_def raw_nobus_def)
qed

text \<open>
  Claim C7 as stated, with \<^verbatim>\<open>average\<close> equal to \<open>-1\<close> and the listener registered after
  every construction, fails. The constructor does not assign \<^verbatim>\<open>average\<close>, and it
  subscribes only under the guard \<^verbatim>\<open>if (EventModel::defaultEventBus)\<close>: constructed in a
  storage whose \<^verbatim>\<open>average\<close> held 0, with no default event bus, the sensor has the
  average 0 and no listener.
\<close>

theorem constructor_counterexample:
  "average (MicroBitLightSensor cfg0 mp0 raw_nobus) \<noteq> - 1
   \<and> \<not> listening (MicroBitLightSensor cfg0 mp0 raw_nobus)"
  by (simp add: MicroBitLightSensor_def Let_def raw_nobus_def raw0_def listening_def)

text \<open>
  Claim C8, that the destructor cancels a pending call of \<^verbatim>\<open>analogReady\<close> before any
  resource is released, is not settled here. The body of the destructor only removes
  the listener (\<open>destroy_MicroBitLightSensor_fields\<close>): it does not detach
  \<open>analogTrigger\<close> and does not delete \<open>sensePin\<close>. What happens to a pending call is
  decided when the member \<open>analogTrigger\<close> is destroyed, after the body, by the
  destructor of the timer library's \<^verbatim>\<open>Timeout\<close>, which is not part of the sources.
\<close>

text \<open>
  Claim C9, as \<^verbatim>\<open>startSensing\<close> has it. \<^verbatim>\<open>startSensing\<close> has no guard: in every state,
  also while the timeout of an earlier call is still armed, it drives the rows low and
  the column of the current channel high, releases the digital input, deletes the
  \<^verbatim>\<open>AnalogIn\<close> it holds, allocates a new one on that column and arms the timeout again.
  It leaves the channel index and the results as they are, so the new cycle is on the
  channel of the pending one.
\<close>

theorem startSensing_unguarded:
  "hw (startSensing cfg s) =
     hw s
     @ map (\<lambda>rowCount. DigitalOut_write (rowStart (matrixMap s) + rowCount) 0)
         [0 ..< rows (matrixMap s)]
     @ [DigitalOut_write (columnStart (matrixMap s) + chan s) 1,
        DigitalIn_destroy (columnStart (matrixMap s) + chan s)]
     @ (case sensePin s of None \<Rightarrow> [] | Some p \<Rightarrow> [AnalogIn_delete p])
     @ [AnalogIn_new (columnStart (matrixMap s) + chan s),
        Timeout_attach_us (MICROBIT_LIGHT_SENSOR_AN_SET_TIME cfg)]
   \<and> analogTrigger (startSensing cfg s)
   \<and> sensePin (startSensing cfg s) = Some (columnStart (matrixMap s) + chan s)
   \<and> chan (startSensing cfg s) = chan s
   \<and> results (startSensing cfg s) = results s
   \<and> startSensing cfg (s\<lparr>analogTrigger := True\<rparr>) = startSensing cfg (s\<lparr>analogTrigger := False\<rparr>)"
  by (simp add: startSensing_def Let_def issue_def split: option.split)

text \<open>
  Claim C9 as stated, with a start request rejected or queued while a cycle is in
  flight, fails. A second \<^verbatim>\<open>startSensing\<close> while the first cycle is settling issues the
  whole hand-off again and deletes the \<^verbatim>\<open>AnalogIn\<close> the pending conversion was to read.
\<close>

theorem startSensing_overlap_counterexample:
  "analogTrigger (startSensing cfg0 (MicroBitLightSensor cfg0 mp0 raw0))
   \<and> hw (startSensing cfg0 (startSensing cfg0 (MicroBitLightSensor cfg0 mp0 raw0))) =
       hw (startSensing cfg0 (MicroBitLightSensor cfg0 mp0 raw0))
       @ [DigitalOut_write 13 0, DigitalOut_write 14 0, DigitalOut_write 15 0,
          DigitalOut_write 4 1, DigitalIn_destroy 4, AnalogIn_delete 4, AnalogIn_new 4,
          Timeout_attach_us 4000]"
  by (simp add: MicroBitLightSensor_def startSensing_def issue_def Let_def cfg0_def mp0_def
      raw0_def upt3 listen_def)

text \<open>
  Claim C10. In the state any run of a newly constructed sensor reaches, every slot of
  \<^verbatim>\<open>results\<close> is the sentinel \<open>-1\<close> or a conversion value from 0 to 65535; a slot is
  negative exactly when its channel has not been sampled in the run; and a slot that is
  not negative is not negative after any continuation of the run.
\<close>

theorem slots_sentinel_or_sampled:
  assumes "chan_num_ok cfg"
    and "length (results raw) = MICROBIT_LIGHT_SENSOR_CHAN_NUM cfg"
  shows "\<exists>s s'. run cfg (MicroBitLightSensor cfg mp raw) es = Inr s
     \<and> run cfg (MicroBitLightSensor cfg mp raw) (es @ es2) = Inr s'
     \<and> (\<forall>i < MICROBIT_LIGHT_SENSOR_CHAN_NUM cfg.
           (results s ! i = - 1 \<or> (0 \<le> results s ! i \<and> results s ! i \<le> 65535))
           \<and> (results s ! i < 0 \<longleftrightarrow>
                i \<notin> set (sampled_channels cfg (MicroBitLightSensor cfg mp raw) es))
           \<and> (0 \<le> results s ! i \<longrightarrow> 0 \<le> results s' ! i))"
proof -
  let ?s0 = "MicroBitLightSensor cfg mp raw"
  let ?C = "MICROBIT_LIGHT_SENSOR_CHAN_NUM cfg"
  have i: "sensor_inv cfg ?s0" using assms by (rule constructor_inv)
  have u: "\<forall>r \<in> set (results ?s0). r = - 1"
    by (simp add: constructor_fields [OF assms(2)])
  from slots_track_samples [OF assms(1) i u, of es] obtain s where s: "run cfg ?s0 es = Inr s"
    "sensor_inv cfg s" and n: "\<forall>i < ?C. results s ! i < 0 \<longleftrightarrow> i \<notin> set (sampled_channels cfg ?s0 es)"
    by blast
  from slots_track_samples [OF assms(1) i u, of "es @ es2"] obtain s'
    where s': "run cfg ?s0 (es @ es2) = Inr s'"
      and n': "\<forall>i < ?C. results s' ! i < 0 \<longleftrightarrow> i \<notin> set (sampled_channels cfg ?s0 (es @ es2))"
    by blast
  have sub: "set (sampled_channels cfg ?s0 es) \<subseteq> set (sampled_channels cfg ?s0 (es @ es2))"
    by (simp add: sampled_channels_def conversions_append [OF s(1)])
  have rng: "\<forall>i < ?C. results s ! i = - 1 \<or> (0 \<le> results s ! i \<and> results s ! i \<le> 65535)"
    using sensor_inv_slot [OF s(2)] by (simp add: slot_ok_def)
  have "0 \<le> results s ! i \<longrightarrow> 0 \<le> results s' ! i" if "i < ?C" for i
    using that n n' sub by (meson in_mono not_less)
  then show ?thesis using s(1) s' rng n by blast
qed

theorem slots_sentinel_or_sampled_witness:
  "\<exists>s. run cfg0 (MicroBitLightSensor cfg0 mp0 raw0) [Start, Expire 100, Start, Expire 65535] = Inr s
     \<and> 0 \<le> results s ! 0 \<and> 0 \<le> results s ! 1 \<and> results s ! 2 = - 1"
proof -
  let ?es = "[Start, Expire 100, Start, Expire 65535]"
  have c: "chan_num_ok cfg0" by (simp add: chan_num_ok_def cfg0_def)
  have l: "length (results raw0) = MICROBIT_LIGHT_SENSOR_CHAN_NUM cfg0"
    by (simp add: raw0_def cfg0_def)
  have n: "sampled_channels cfg0 (MicroBitLightSensor cfg0 mp0 raw0) ?es = [0, 1]"
    by (simp add: eval_run sampled_channels_def del: run.simps(2) conversions.simps(2))
  from slots_sentinel_or_sampled [OF c l, of mp0 ?es "[]"]
  obtain s where s: "run cfg0 (MicroBitLightSensor cfg0 mp0 raw0) ?es = Inr s"
    and p: "\<forall>i < 3. (results s ! i = - 1 \<or> (0 \<le> results s ! i \<and> results s ! i \<le> 65535))
           \<and> (results s ! i < 0 \<longleftrightarrow> i \<notin> set [0, 1 :: nat])"
    unfolding n chan_num0 by blast
  have "0 \<le> results s ! 0" "0 \<le> results s ! 1" "results s ! 2 = - 1"
    using p [rule_format, of 0] p [rule_format, of 1] p [rule_format, of 2] by auto
  then show ?thesis using s by blast
qed

end
